theory Spec2Isabelle
  imports Main
begin

section \<open>Objects, metadata maps and the heap\<close>

text \<open>
  The registry of \<^verbatim>\<open>regd/registry.py\<close> keeps all of its state in the
  \<^verbatim>\<open>__annotations__\<close> dictionaries of the function objects it is handed. Objects have
  identity and the dictionaries are mutable objects of their own (two functions may hold the
  same dictionary, as after \<^verbatim>\<open>functools.wraps\<close>), so the model is an explicit heap:
  a store of objects and a store of dictionaries, both addressed by numbers.
\<close>

type_synonym ref = nat
type_synonym dref = nat

text \<open>
  The three keys the registry reads and writes in an \<^verbatim>\<open>__annotations__\<close> dictionary.
  A field is \<open>None\<close> when the key is not in the dictionary. The dictionary is the one Python
  fills with the annotations of the parameters, so a key may be there because a parameter has
  that name; the values are objects, and under \<^verbatim>\<open>decorators\<close> only lists of objects are
  modelled.
\<close>

record annots =
  NATIVE_FUNCTION :: "ref option"
  DECORATOR :: "ref option"
  DECORATORS :: "ref list option"

definition no_keys :: annots where
  "no_keys = \<lparr>NATIVE_FUNCTION = None, DECORATOR = None, DECORATORS = None\<rparr>"

text \<open>
  The objects the registry tells apart by \<^verbatim>\<open>type(...)\<close>:
  \<^item> \<open>Function name ann\<close>: \<^verbatim>\<open>types.FunctionType\<close>, with its \<^verbatim>\<open>__name__\<close> and its
    \<^verbatim>\<open>__annotations__\<close> attribute (\<open>None\<close> while the attribute does not exist);
  \<^item> \<open>StaticMethod f\<close>, \<open>ClassMethod f\<close>: the built-in binding objects, \<open>f\<close> their
    \<^verbatim>\<open>__func__\<close>; the registry reads no other attribute of them, and they are modelled with
    none, as Python before 3.10 has them (from 3.10 on they carry an \<^verbatim>\<open>__annotations__\<close> of
    their own, which is read only when one binding object wraps another);
  \<^item> \<open>Class name dir dict ann\<close>: an object whose type is \<^verbatim>\<open>type\<close>, with its
    \<^verbatim>\<open>__name__\<close>, the names \<^verbatim>\<open>dir(cls)\<close> lists (its own and the inherited ones), its own
    namespace \<^verbatim>\<open>cls.__dict__\<close> in enumeration order, and its \<^verbatim>\<open>__annotations__\<close>;
  \<^item> \<open>Instance c ann\<close>: an object whose \<^verbatim>\<open>__class__\<close> is the object at \<open>c\<close>, with the
    \<^verbatim>\<open>__annotations__\<close> set on the instance itself (the one of its class is not looked up
    through it);
  \<^item> \<open>Other\<close>: any other value (\<^verbatim>\<open>None\<close>, numbers, built-in functions and types): it has
    no \<^verbatim>\<open>__annotations__\<close>, no \<^verbatim>\<open>__name__\<close> that is read, and rejects attribute assignment.
\<close>

datatype obj =
    Function string "dref option"
  | StaticMethod ref
  | ClassMethod ref
  | Class string "string list" "(string \<times> ref) list" "dref option"
  | Instance ref "dref option"
  | Other

record heap =
  objs :: "ref \<Rightarrow> obj"
  dicts :: "dref \<Rightarrow> annots"
  next_obj :: ref
  next_dict :: dref

text \<open>
  A call of the registry returns a value and the heap it leaves, raises (the heap at the raise
  is kept), or never returns.
\<close>

datatype pyerr = AttributeError | KeyError

datatype 'a result = Return 'a heap | Raise pyerr heap | Hang

definition and_then :: "'a result \<Rightarrow> ('a \<Rightarrow> heap \<Rightarrow> 'b result) \<Rightarrow> 'b result" where
  "and_then r k = (case r of Return a h \<Rightarrow> k a h | Raise e h \<Rightarrow> Raise e h | Hang \<Rightarrow> Hang)"

text \<open>\<^verbatim>\<open>hasattr(o, '__annotations__')\<close> and \<^verbatim>\<open>o.__annotations__\<close>.\<close>

fun get_ann :: "obj \<Rightarrow> dref option" where
  "get_ann (Function n a) = a"
| "get_ann (Class n ds d a) = a"
| "get_ann (Instance c a) = a"
| "get_ann (StaticMethod f) = None"
| "get_ann (ClassMethod f) = None"
| "get_ann Other = None"

text \<open>\<^verbatim>\<open>setattr(o, '__annotations__', d)\<close>: \<open>None\<close> when the object rejects the attribute.\<close>

fun set_ann :: "obj \<Rightarrow> dref \<Rightarrow> obj option" where
  "set_ann (Function n a) d = Some (Function n (Some d))"
| "set_ann (Class n ds dc a) d = Some (Class n ds dc (Some d))"
| "set_ann (Instance c a) d = Some (Instance c (Some d))"
| "set_ann (StaticMethod f) d = None"
| "set_ann (ClassMethod f) d = None"
| "set_ann Other d = None"

text \<open>\<^verbatim>\<open>o.__name__\<close>: \<open>None\<close> when the object has no such attribute.\<close>

fun get_name :: "obj \<Rightarrow> string option" where
  "get_name (Function n a) = Some n"
| "get_name (Class n ds d a) = Some n"
| "get_name _ = None"

text \<open>A newly created object takes the next free address.\<close>

definition alloc_obj :: "obj \<Rightarrow> heap \<Rightarrow> ref \<times> heap" where
  "alloc_obj ob h = (next_obj h, h\<lparr>objs := (objs h)(next_obj h := ob), next_obj := Suc (next_obj h)\<rparr>)"

section \<open>The private methods\<close>

text \<open>
  \<^verbatim>\<open>_make_portable\<close>: an object with no \<^verbatim>\<open>__annotations__\<close> gets a new empty dictionary.
\<close>

definition make_portable :: "ref \<Rightarrow> heap \<Rightarrow> ref result" where
  "make_portable fn h =
     (case get_ann (objs h fn) of
        Some a \<Rightarrow> Return fn h
      | None \<Rightarrow>
          (case set_ann (objs h fn) (next_dict h) of
             None \<Rightarrow> Raise AttributeError h
           | Some ob \<Rightarrow>
               Return fn (h\<lparr>objs := (objs h)(fn := ob),
                             dicts := (dicts h)(next_dict h := no_keys),
                             next_dict := Suc (next_dict h)\<rparr>)))"

text \<open>\<^verbatim>\<open>_getfn\<close>: a staticmethod or classmethod object is replaced by its \<^verbatim>\<open>__func__\<close>.\<close>

definition getfn :: "ref \<Rightarrow> heap \<Rightarrow> ref result" where
  "getfn fn h =
     make_portable (case objs h fn of StaticMethod f \<Rightarrow> f | ClassMethod f \<Rightarrow> f | _ \<Rightarrow> fn) h"

text \<open>
  \<^verbatim>\<open>fn.__annotations__[key] = value\<close>, for the three keys: \<open>upd\<close> is the change to the
  dictionary. With no \<^verbatim>\<open>__annotations__\<close> attribute the read of it raises.
\<close>

definition set_item :: "ref \<Rightarrow> (annots \<Rightarrow> annots) \<Rightarrow> heap \<Rightarrow> unit result" where
  "set_item fn upd h =
     (case get_ann (objs h fn) of
        None \<Rightarrow> Raise AttributeError h
      | Some a \<Rightarrow> Return () (h\<lparr>dicts := (dicts h)(a := upd (dicts h a))\<rparr>))"

definition set_native_function :: "ref \<Rightarrow> ref \<Rightarrow> heap \<Rightarrow> unit result" where
  "set_native_function fn native_fn h =
     and_then (getfn fn h) (\<lambda>fn. set_item fn (\<lambda>d. d\<lparr>NATIVE_FUNCTION := Some native_fn\<rparr>))"

text \<open>
  The loop of \<^verbatim>\<open>_get_native_function\<close>:
  \<^verbatim>\<open>while NATIVE_FUNCTION in native_fn.__annotations__: native_fn = native_fn.__annotations__[NATIVE_FUNCTION]\<close>.
  Only the first object of the chain went through \<^verbatim>\<open>_getfn\<close>; a later one with no
  \<^verbatim>\<open>__annotations__\<close> raises. The loop runs forever on a cyclic chain: the value \<open>None\<close>.
\<close>

partial_function (option) follow :: "heap \<Rightarrow> ref \<Rightarrow> (pyerr + ref) option" where
  "follow h native_fn =
     (case get_ann (objs h native_fn) of
        None \<Rightarrow> Some (Inl AttributeError)
      | Some a \<Rightarrow>
          (case NATIVE_FUNCTION (dicts h a) of
             None \<Rightarrow> Some (Inr native_fn)
           | Some n \<Rightarrow> follow h n))"

definition get_native_function :: "ref \<Rightarrow> heap \<Rightarrow> ref result" where
  "get_native_function fn h =
     and_then (getfn fn h) (\<lambda>native_fn h.
       case follow h native_fn of
         None \<Rightarrow> Hang
       | Some (Inl e) \<Rightarrow> Raise e h
       | Some (Inr r) \<Rightarrow> Return r h)"

definition set_decorator :: "ref \<Rightarrow> ref \<Rightarrow> heap \<Rightarrow> unit result" where
  "set_decorator fn deco h =
     and_then (getfn fn h) (\<lambda>fn. set_item fn (\<lambda>d. d\<lparr>DECORATOR := Some deco\<rparr>))"

definition get_decorator :: "ref \<Rightarrow> heap \<Rightarrow> ref option result" where
  "get_decorator fn h =
     and_then (getfn fn h) (\<lambda>fn h.
       case get_ann (objs h fn) of
         None \<Rightarrow> Raise AttributeError h
       | Some a \<Rightarrow> Return (DECORATOR (dicts h a)) h)"

text \<open>
  \<^verbatim>\<open>_append_decorator\<close>: the list under \<^verbatim>\<open>decorators\<close> of the resolved function is created
  when missing and extended when the decorator is not in it.
\<close>

definition append_decorator :: "ref \<Rightarrow> ref \<Rightarrow> heap \<Rightarrow> unit result" where
  "append_decorator fn deco h =
     and_then (get_native_function fn h) (\<lambda>native_fn.
       set_item native_fn (\<lambda>d.
         let ds = (case DECORATORS d of None \<Rightarrow> [] | Some ds \<Rightarrow> ds)
         in d\<lparr>DECORATORS := Some (if deco \<in> set ds then ds else ds @ [deco])\<rparr>))"

section \<open>Queries on one function\<close>

definition get_real_function :: "ref \<Rightarrow> heap \<Rightarrow> ref result" where
  "get_real_function fn h = get_native_function fn h"

definition get_decorators :: "ref \<Rightarrow> heap \<Rightarrow> ref list result" where
  "get_decorators fn h =
     and_then (get_native_function fn h) (\<lambda>native_fn h.
       case get_ann (objs h native_fn) of
         None \<Rightarrow> Raise AttributeError h
       | Some a \<Rightarrow> Return (case DECORATORS (dicts h a) of None \<Rightarrow> [] | Some ds \<Rightarrow> ds) h)"

definition is_decorated_with :: "ref \<Rightarrow> ref \<Rightarrow> heap \<Rightarrow> bool result" where
  "is_decorated_with fn deco h =
     and_then (get_decorators fn h) (\<lambda>ds. Return (deco \<in> set ds))"

section \<open>Registration\<close>

text \<open>
  A native decorator is code of the caller: its \<^verbatim>\<open>__name__\<close> and what a call of it does to
  the heap and returns. A parametrized one maps its arguments to a native decorator.
\<close>

record native =
  nd_name :: string
  nd_call :: "ref \<Rightarrow> heap \<Rightarrow> ref \<times> heap"

record 'a pnative =
  pnd_name :: string
  pnd_call :: "'a \<Rightarrow> native"

text \<open>
  \<^verbatim>\<open>DecoratorRegistry.decorator\<close> creates the function \<^verbatim>\<open>new_decorator\<close>, named after the
  native decorator, and returns it. \<open>new_decorator nd self\<close> is what a call of the function
  at \<open>self\<close> does.
\<close>

definition new_decorator :: "native \<Rightarrow> ref \<Rightarrow> ref \<Rightarrow> heap \<Rightarrow> ref result" where
  "new_decorator nd self fn h =
     (case nd_call nd fn h of (fn_decorator, h1) \<Rightarrow>
        and_then (get_native_function fn h1) (\<lambda>native_fn h2.
        and_then (set_decorator fn_decorator self h2) (\<lambda>_ h3.
        and_then (set_native_function fn_decorator native_fn h3) (\<lambda>_ h4.
        and_then (set_native_function self native_fn h4) (\<lambda>_ h5.
        and_then (append_decorator native_fn self h5) (\<lambda>_ h6.
        Return fn_decorator h6))))))"

definition decorator :: "native \<Rightarrow> heap \<Rightarrow> ref \<times> heap" where
  "decorator nd h = alloc_obj (Function (nd_name nd) None) h"

text \<open>
  \<^verbatim>\<open>DecoratorRegistry.parametrized_decorator\<close> creates \<^verbatim>\<open>new_parametrized_decorator\<close>
  (at \<open>outer\<close>); a call of it with arguments creates an inner \<^verbatim>\<open>new_decorator\<close> (at
  \<open>inner\<close>), named after the decorator the native one returned for these arguments;
  \<open>new_decorator_p nd outer inner\<close> is what a call of the inner function does.
\<close>

definition new_decorator_p :: "native \<Rightarrow> ref \<Rightarrow> ref \<Rightarrow> ref \<Rightarrow> heap \<Rightarrow> ref result" where
  "new_decorator_p nd outer inner fn h =
     (case nd_call nd fn h of (fn_decorator, h1) \<Rightarrow>
        and_then (get_native_function fn h1) (\<lambda>native_fn h2.
        and_then (set_decorator fn_decorator inner h2) (\<lambda>_ h3.
        and_then (set_native_function fn_decorator native_fn h3) (\<lambda>_ h4.
        and_then (set_native_function outer native_fn h4) (\<lambda>_ h5.
        and_then (append_decorator native_fn outer h5) (\<lambda>_ h6.
        Return fn_decorator h6))))))"

definition new_parametrized_decorator :: "'a pnative \<Rightarrow> 'a \<Rightarrow> heap \<Rightarrow> ref \<times> heap" where
  "new_parametrized_decorator pnd args h =
     alloc_obj (Function (nd_name (pnd_call pnd args)) None) h"

definition parametrized_decorator :: "'a pnative \<Rightarrow> heap \<Rightarrow> ref \<times> heap" where
  "parametrized_decorator pnd h = alloc_obj (Function (pnd_name pnd) None) h"

section \<open>Scans of classes and modules\<close>

text \<open>
  The scans are generators. A generator is modelled by what it has handed over when it
  stops, together with how it stopped: exhausted (\<open>Return\<close>), by a raise or never. A
  \<^verbatim>\<open>for\<close> loop runs its body on each element and stops at the first one that does not return.
\<close>

fun for_each :: "('x \<Rightarrow> 's \<Rightarrow> heap \<Rightarrow> 's \<times> unit result) \<Rightarrow> 'x list \<Rightarrow> 's \<Rightarrow> heap \<Rightarrow> 's \<times> unit result" where
  "for_each body [] s h = (s, Return () h)"
| "for_each body (x # xs) s h =
     (case body x s h of
        (s', Return u h') \<Rightarrow> for_each body xs s' h'
      | (s', Raise e h') \<Rightarrow> (s', Raise e h')
      | (s', Hang) \<Rightarrow> (s', Hang))"

text \<open>A call inside a loop body: the body goes on when the call returns and stops otherwise.\<close>

definition on_return :: "'a result \<Rightarrow> 's \<Rightarrow> ('a \<Rightarrow> heap \<Rightarrow> 's \<times> unit result) \<Rightarrow> 's \<times> unit result" where
  "on_return r s k = (case r of Return a h \<Rightarrow> k a h | Raise e h \<Rightarrow> (s, Raise e h) | Hang \<Rightarrow> (s, Hang))"

text \<open>The type tests of the scans.\<close>

fun is_function :: "obj \<Rightarrow> bool" where
  "is_function (Function n a) = True"
| "is_function _ = False"

fun is_function_like :: "obj \<Rightarrow> bool" where
  "is_function_like (Function n a) = True"
| "is_function_like (StaticMethod f) = True"
| "is_function_like (ClassMethod f) = True"
| "is_function_like _ = False"

text \<open>
  \<^verbatim>\<open>while cls.__class__ is not type: cls = cls.__class__\<close>. The class of a class is
  \<^verbatim>\<open>type\<close> (the model has no metaclasses), the class of an instance is the object it names, and
  the class of any other object is a built-in type (\<open>Some None\<close>), whose class is \<^verbatim>\<open>type\<close>.
\<close>

partial_function (option) find_class :: "heap \<Rightarrow> ref \<Rightarrow> ref option option" where
  "find_class h cls =
     (case objs h cls of
        Class n ds d a \<Rightarrow> Some (Some cls)
      | Instance c a \<Rightarrow> find_class h c
      | _ \<Rightarrow> Some None)"

text \<open>
  The body of the loop of \<^verbatim>\<open>decorated_methods\<close> over \<^verbatim>\<open>cls.__dict__.keys()\<close>; the state is
  the list of the entries \<^verbatim>\<open>{methodname: method}\<close> yielded so far.
\<close>

definition decorated_methods_body ::
  "ref \<Rightarrow> (string \<times> ref) list \<Rightarrow> string \<Rightarrow> (string \<times> ref) list \<Rightarrow> heap \<Rightarrow> (string \<times> ref) list \<times> unit result" where
  "decorated_methods_body deco cdict methodname ys h =
     (case map_of cdict methodname of
        None \<Rightarrow> (ys, Raise KeyError h)
      | Some method \<Rightarrow>
          if is_function (objs h method) then
            on_return (get_decorators method h) ys (\<lambda>ds h.
              (if deco \<in> set ds then ys @ [(methodname, method)] else ys, Return () h))
          else (ys, Return () h))"

text \<open>
  \<^verbatim>\<open>decorated_methods\<close>. The namespace of a built-in type holds no object of type
  \<^verbatim>\<open>types.FunctionType\<close>, so the scan of one yields nothing.
\<close>

definition decorated_methods :: "ref \<Rightarrow> ref \<Rightarrow> heap \<Rightarrow> (string \<times> ref) list \<times> unit result" where
  "decorated_methods cls deco h =
     (case find_class h cls of
        None \<Rightarrow> ([], Hang)
      | Some None \<Rightarrow> ([], Return () h)
      | Some (Some c) \<Rightarrow>
          (case objs h c of
             Class n ds cdict a \<Rightarrow> for_each (decorated_methods_body deco cdict) (map fst cdict) [] h
           | _ \<Rightarrow> ([], Return () h)))"

text \<open>
  A module is read only: the names \<^verbatim>\<open>dir(module)\<close> lists and its namespace
  \<^verbatim>\<open>module.__dict__\<close>. \<^verbatim>\<open>d.get(name)\<close> is \<open>map_of d name\<close>, with \<open>None\<close> for Python's
  \<^verbatim>\<open>None\<close>.
\<close>

record pymodule =
  mdir :: "string list"
  mdict :: "(string \<times> ref) list"

text \<open>
  An entry \<^verbatim>\<open>{name: value}\<close> yielded by the module scan, and the loop body of the caller that
  takes the entries one by one (the generator is resumed only when that body returns).
\<close>

type_synonym entry = "string \<times> ref option"
type_synonym 'a consumer = "entry \<Rightarrow> 'a \<Rightarrow> heap \<Rightarrow> 'a \<times> unit result"

text \<open>\<^verbatim>\<open>fn.__annotations__[NATIVE_FUNCTION].__name__\<close>\<close>

definition native_name :: "ref \<Rightarrow> heap \<Rightarrow> string result" where
  "native_name fn h =
     (case get_ann (objs h fn) of
        None \<Rightarrow> Raise AttributeError h
      | Some a \<Rightarrow>
          (case NATIVE_FUNCTION (dicts h a) of
             None \<Rightarrow> Raise KeyError h
           | Some n \<Rightarrow>
               (case get_name (objs h n) of
                  None \<Rightarrow> Raise AttributeError h
                | Some s \<Rightarrow> Return s h)))"

text \<open>
  \<^verbatim>\<open>yield {key: value}\<close> followed by \<^verbatim>\<open>module_names += [fname]\<close>: the name is recorded when
  the generator is resumed.
\<close>

definition emit ::
  "'a consumer \<Rightarrow> entry \<Rightarrow> string \<Rightarrow> string list \<times> 'a \<Rightarrow> heap \<Rightarrow> (string list \<times> 'a) \<times> unit result" where
  "emit consume e fname s h =
     (case s of (module_names, acc) \<Rightarrow>
        (case consume e acc h of
           (acc', Return u h') \<Rightarrow> ((module_names @ [fname], acc'), Return () h')
         | (acc', Raise x h') \<Rightarrow> ((module_names, acc'), Raise x h')
         | (acc', Hang) \<Rightarrow> ((module_names, acc'), Hang)))"

text \<open>
  The part the two lookups of \<^verbatim>\<open>all_decorated_module_functions\<close> share, after
  \<^verbatim>\<open>_getfn\<close>: \<open>mk_key\<close> builds the yielded name from the resolved one and \<open>ns\<close> is the
  namespace the yielded value is fetched from.
\<close>

definition visit ::
  "'a consumer \<Rightarrow> (string \<Rightarrow> string) \<Rightarrow> (string \<times> ref) list \<Rightarrow> ref \<Rightarrow> string list \<times> 'a \<Rightarrow> heap
     \<Rightarrow> (string list \<times> 'a) \<times> unit result" where
  "visit consume mk_key ns fn s h =
     on_return (get_decorators fn h) s (\<lambda>ds h.
       if length ds > 0 then
         on_return (native_name fn h) s (\<lambda>fname h.
           if fname \<notin> set (fst s) then emit consume (mk_key fname, map_of ns fname) fname s h
           else (s, Return () h))
       else (s, Return () h))"

text \<open>The body of the inner loop, over \<^verbatim>\<open>dir(fn)\<close> of a class \<open>fn\<close>.\<close>

definition method_step ::
  "'a consumer \<Rightarrow> string \<Rightarrow> (string \<times> ref) list \<Rightarrow> string \<Rightarrow> string list \<times> 'a \<Rightarrow> heap
     \<Rightarrow> (string list \<times> 'a) \<times> unit result" where
  "method_step consume cname cdict cls_el s h =
     (case map_of cdict cls_el of
        None \<Rightarrow> (s, Return () h)
      | Some method \<Rightarrow>
          if is_function_like (objs h method) then
            on_return (getfn method h) s (\<lambda>method h.
              visit consume (\<lambda>fname. cname @ ''.'' @ fname) cdict method s h)
          else (s, Return () h))"

text \<open>
  The lookup for functions reassigns \<^verbatim>\<open>fn\<close>; the lookup for class methods reads it
  afterwards. The state of the first carries the variable along.
\<close>

definition functions_block ::
  "'a consumer \<Rightarrow> pymodule \<Rightarrow> ref \<Rightarrow> string list \<times> 'a \<Rightarrow> heap \<Rightarrow> (ref \<times> string list \<times> 'a) \<times> unit result" where
  "functions_block consume m fn s h =
     on_return (getfn fn h) (fn, s) (\<lambda>fn' h.
       case visit consume (\<lambda>fname. fname) (mdict m) fn' s h of (s', r) \<Rightarrow> ((fn', s'), r))"

definition methods_block ::
  "'a consumer \<Rightarrow> ref \<Rightarrow> string list \<times> 'a \<Rightarrow> heap \<Rightarrow> (string list \<times> 'a) \<times> unit result" where
  "methods_block consume fn s h =
     (case objs h fn of
        Class cname cdir cdict a \<Rightarrow> for_each (method_step consume cname cdict) cdir s h
      | _ \<Rightarrow> (s, Return () h))"

definition module_step ::
  "'a consumer \<Rightarrow> pymodule \<Rightarrow> bool \<Rightarrow> bool \<Rightarrow> string \<Rightarrow> string list \<times> 'a \<Rightarrow> heap
     \<Rightarrow> (string list \<times> 'a) \<times> unit result" where
  "module_step consume m exclude_methods exclude_functions el s h =
     (case map_of (mdict m) el of
        None \<Rightarrow> (s, Return () h)
      | Some fn \<Rightarrow>
          (case (if \<not> exclude_functions \<and> is_function_like (objs h fn)
                 then functions_block consume m fn s h
                 else ((fn, s), Return () h)) of
             ((fn', s'), Return u h') \<Rightarrow>
               if \<not> exclude_methods then methods_block consume fn' s' h' else (s', Return () h')
           | ((fn', s'), Raise e h') \<Rightarrow> (s', Raise e h')
           | ((fn', s'), Hang) \<Rightarrow> (s', Hang)))"

text \<open>
  The generator of \<^verbatim>\<open>all_decorated_module_functions\<close> run against a consumer: it hands back
  \<^verbatim>\<open>module_names\<close> and what the consumer accumulated.
\<close>

definition scan_module ::
  "'a consumer \<Rightarrow> pymodule \<Rightarrow> bool \<Rightarrow> bool \<Rightarrow> 'a \<Rightarrow> heap \<Rightarrow> (string list \<times> 'a) \<times> unit result" where
  "scan_module consume m exclude_methods exclude_functions acc h =
     for_each (module_step consume m exclude_methods exclude_functions) (mdir m) ([], acc) h"

text \<open>The consumer that collects every entry, as \<^verbatim>\<open>list(...)\<close> does.\<close>

definition collect :: "entry list consumer" where
  "collect e ys h = (ys @ [e], Return () h)"

definition all_decorated_module_functions ::
  "pymodule \<Rightarrow> bool \<Rightarrow> bool \<Rightarrow> heap \<Rightarrow> entry list \<times> unit result" where
  "all_decorated_module_functions m exclude_methods exclude_functions h =
     (case scan_module collect m exclude_methods exclude_functions [] h of
        ((module_names, ys), r) \<Rightarrow> (ys, r))"

text \<open>
  The loop body of \<^verbatim>\<open>module_functions_decorated_with\<close> on one yielded entry. A value
  \<^verbatim>\<open>None\<close> makes \<^verbatim>\<open>_make_portable\<close> raise.
\<close>

definition decorated_with :: "ref \<Rightarrow> entry list consumer" where
  "decorated_with deco e ys h =
     (case snd e of
        None \<Rightarrow> (ys, Raise AttributeError h)
      | Some fn \<Rightarrow>
          on_return (get_decorators fn h) ys (\<lambda>ds h.
            (if deco \<in> set ds then ys @ [e] else ys, Return () h)))"

definition module_functions_decorated_with ::
  "pymodule \<Rightarrow> ref \<Rightarrow> bool \<Rightarrow> bool \<Rightarrow> heap \<Rightarrow> entry list \<times> unit result" where
  "module_functions_decorated_with m deco exclude_methods exclude_functions h =
     (case scan_module (decorated_with deco) m exclude_methods exclude_functions [] h of
        ((module_names, ys), r) \<Rightarrow> (ys, r))"

section \<open>What the claims speak of\<close>

text \<open>
  The three tracking keys as seen from an object: those of its dictionary, and none when it has
  no \<^verbatim>\<open>__annotations__\<close>.
\<close>

definition tracking :: "heap \<Rightarrow> ref \<Rightarrow> annots" where
  "tracking h r = (case get_ann (objs h r) of None \<Rightarrow> no_keys | Some a \<Rightarrow> dicts h a)"

text \<open>
  \<open>same_map h x y\<close>: a write on the \<^verbatim>\<open>__annotations__\<close> of \<open>x\<close> shows on \<open>y\<close>. The two
  are one object, or they hold the same dictionary object.
\<close>

definition same_map :: "heap \<Rightarrow> ref \<Rightarrow> ref \<Rightarrow> bool" where
  "same_map h x y \<longleftrightarrow> x = y \<or> (get_ann (objs h x) \<noteq> None \<and> get_ann (objs h x) = get_ann (objs h y))"

text \<open>The list under \<^verbatim>\<open>decorators\<close>, and what \<^verbatim>\<open>_append_decorator\<close> makes of it.\<close>

definition decorators_of :: "annots \<Rightarrow> ref list" where
  "decorators_of d = (case DECORATORS d of None \<Rightarrow> [] | Some ds \<Rightarrow> ds)"

definition add_once :: "ref \<Rightarrow> ref list \<Rightarrow> ref list" where
  "add_once d ds = (if d \<in> set ds then ds else ds @ [d])"

text \<open>The heap before anything is created, and \<^verbatim>\<open>def name(): ...\<close>.\<close>

definition empty_heap :: heap where
  "empty_heap = \<lparr>objs = (\<lambda>_. Other), dicts = (\<lambda>_. no_keys), next_obj = 0, next_dict = 0\<rparr>"

definition def_function :: "string \<Rightarrow> heap \<Rightarrow> ref \<times> heap" where
  "def_function name h = alloc_obj (Function name None) h"

text \<open>
  \<^verbatim>\<open>def name(p: t = ...): ...\<close>, a function with annotated parameters: it is created
  holding the dictionary of its annotations, \<open>ann\<close> giving the entries under the three names
  the registry uses.
\<close>

definition def_annotated :: "string \<Rightarrow> annots \<Rightarrow> heap \<Rightarrow> ref \<times> heap" where
  "def_annotated name ann h =
     alloc_obj (Function name (Some (next_dict h)))
       (h\<lparr>dicts := (dicts h)(next_dict h := ann), next_dict := Suc (next_dict h)\<rparr>)"

text \<open>
  Heaps as Python builds them: addresses from \<open>next_obj\<close> on are unused, and every
  dictionary an object holds was created before \<open>next_dict\<close>.
\<close>

definition wf :: "heap \<Rightarrow> bool" where
  "wf h \<longleftrightarrow> (\<forall>r. next_obj h \<le> r \<longrightarrow> objs h r = Other)
           \<and> (\<forall>r a. get_ann (objs h r) = Some a \<longrightarrow> a < next_dict h)"

text \<open>
  The heap a call stops in, when it stops. \<open>unchanged h h'\<close>: from \<open>h\<close> to \<open>h'\<close> no
  object was created, every object shows the same tracking keys, and an object is the same or
  was given an \<^verbatim>\<open>__annotations__\<close> it did not have (by the line before, an empty one).
  \<open>kept h r\<close>: the call with result \<open>r\<close>, if it stopped, left such a heap.
\<close>

fun heap_of :: "'a result \<Rightarrow> heap option" where
  "heap_of (Return a h) = Some h"
| "heap_of (Raise e h) = Some h"
| "heap_of Hang = None"

definition unchanged :: "heap \<Rightarrow> heap \<Rightarrow> bool" where
  "unchanged h h' \<longleftrightarrow>
     next_obj h' = next_obj h
     \<and> (\<forall>r. tracking h' r = tracking h r)
     \<and> (\<forall>r. objs h' r = objs h r
            \<or> (get_ann (objs h r) = None \<and> (\<exists>a. set_ann (objs h r) a = Some (objs h' r))))"

definition kept :: "heap \<Rightarrow> 'a result \<Rightarrow> bool" where
  "kept h0 r \<longleftrightarrow> (case heap_of r of None \<Rightarrow> True | Some h' \<Rightarrow> wf h' \<and> unchanged h0 h')"

definition keeps :: "heap \<Rightarrow> 'a consumer \<Rightarrow> bool" where
  "keeps h0 consume \<longleftrightarrow> (\<forall>e acc h. wf h \<longrightarrow> unchanged h0 h \<longrightarrow> kept h0 (snd (consume e acc h)))"

text \<open>
  The two kinds of entry of the module scan, for a resolved name: the bare name with the
  module's binding of it, and \<^verbatim>\<open>ClassName.name\<close> with the binding of the name in the
  namespace of a class. \<open>once E\<close>: \<^verbatim>\<open>module_names\<close> has no duplicate and the entries yielded
  are, one for each name and in order, of the kind \<open>E\<close>.
\<close>

definition function_entry :: "pymodule \<Rightarrow> string \<Rightarrow> entry \<Rightarrow> bool" where
  "function_entry m fname e \<longleftrightarrow> e = (fname, map_of (mdict m) fname)"

definition method_entry :: "heap \<Rightarrow> string \<Rightarrow> entry \<Rightarrow> bool" where
  "method_entry h fname e \<longleftrightarrow>
     (\<exists>c cname cdir cdict a. objs h c = Class cname cdir cdict a
        \<and> e = (cname @ ''.'' @ fname, map_of cdict fname))"

definition once :: "(string \<Rightarrow> entry \<Rightarrow> bool) \<Rightarrow> string list \<times> entry list \<Rightarrow> bool" where
  "once E s \<longleftrightarrow> distinct (fst s) \<and> list_all2 E (fst s) (snd s)"

subsection \<open>Native decorators of the examples\<close>

text \<open>
  \<^verbatim>\<open>def just_decorator(fn): def wrapper(*args, **kwargs): ...; return wrapper\<close>, the decorator
  of the tests: each call creates a new function.
\<close>

definition just_decorator :: native where
  "just_decorator = \<lparr>nd_name = ''just_decorator'', nd_call = (\<lambda>fn. alloc_obj (Function ''wrapper'' None))\<rparr>"

text \<open>\<^verbatim>\<open>def register(fn): return fn\<close>, a decorator that hands its argument back.\<close>

definition identity_decorator :: native where
  "identity_decorator = \<lparr>nd_name = ''register'', nd_call = (\<lambda>fn h. (fn, h))\<rparr>"

text \<open>
  \<^verbatim>\<open>def logged(fn): @functools.wraps(fn) def wrapper(*args, **kwargs): ...; return wrapper\<close>:
  the new function is given the \<^verbatim>\<open>__name__\<close> of \<^verbatim>\<open>fn\<close> and its \<^verbatim>\<open>__annotations__\<close>, the
  same dictionary object (reading the attribute of a function creates the dictionary).
\<close>

definition wraps_decorator :: native where
  "wraps_decorator = \<lparr>nd_name = ''logged'',
     nd_call = (\<lambda>fn h.
       case make_portable fn h of
         Return f h' \<Rightarrow>
           alloc_obj (Function (case get_name (objs h' f) of Some n \<Rightarrow> n | None \<Rightarrow> ''wrapper'')
                               (get_ann (objs h' f))) h'
       | Raise e h' \<Rightarrow> alloc_obj (Function ''wrapper'' None) h'
       | Hang \<Rightarrow> alloc_obj (Function ''wrapper'' None) h)\<rparr>"

text \<open>The parametrized decorator of the tests, with a list of numbers for its arguments.\<close>

definition decorator_with_args :: "nat list pnative" where
  "decorator_with_args = \<lparr>pnd_name = ''decorator_with_args'',
     pnd_call = (\<lambda>args. \<lparr>nd_name = ''decorator'', nd_call = (\<lambda>fn. alloc_obj (Function ''wrapper'' None))\<rparr>)\<rparr>"

subsection \<open>Programs of the examples\<close>

text \<open>
  \<^verbatim>\<open>rd = DecoratorRegistry.decorator(register); def f(): pass\<close>:
  \<^verbatim>\<open>rd\<close> is object 0 and \<^verbatim>\<open>f\<close> object 1.
\<close>

definition identity_scenario :: heap where
  "identity_scenario = snd (def_function ''f'' (snd (decorator identity_decorator empty_heap)))"

text \<open>
  \<^verbatim>\<open>rl = DecoratorRegistry.decorator(logged); def f(): pass\<close>:
  \<^verbatim>\<open>rl\<close> is object 0 and \<^verbatim>\<open>f\<close> object 1.
\<close>

definition wraps_scenario :: heap where
  "wraps_scenario = snd (def_function ''f'' (snd (decorator wraps_decorator empty_heap)))"

text \<open>
  \<^verbatim>\<open>jd = DecoratorRegistry.decorator(just_decorator)\<close> and
  \<^verbatim>\<open>class C: @staticmethod @jd def m(): pass\<close>.
  \<^verbatim>\<open>jd\<close> is object 0, the original \<^verbatim>\<open>m\<close> object 1, the wrapper \<^verbatim>\<open>jd(m)\<close> object 2, the
  staticmethod object 3 and the class object 4; \<^verbatim>\<open>dir(C)\<close> also lists the inherited
  \<^verbatim>\<open>__init__\<close>. The module holds the class.
\<close>

definition static_scenario :: heap where
  "static_scenario =
     (case decorator just_decorator empty_heap of (jd, h1) \<Rightarrow>
      case def_function ''m'' h1 of (m, h2) \<Rightarrow>
      case new_decorator just_decorator jd m h2 of
        Return w h3 \<Rightarrow>
          (case alloc_obj (StaticMethod w) h3 of (sm, h4) \<Rightarrow>
           snd (alloc_obj (Class ''C'' [''__init__'', ''m''] [(''m'', sm)] None) h4))
      | Raise e h3 \<Rightarrow> h3
      | Hang \<Rightarrow> h2)"

definition static_module :: pymodule where
  "static_module = \<lparr>mdir = [''C''], mdict = [(''C'', 4)]\<rparr>"

text \<open>
  With \<^verbatim>\<open>jd\<close> registered elsewhere (object 0), the module
  \<^verbatim>\<open>def f(): pass\<close>, \<^verbatim>\<open>g = jd(f)\<close>: \<^verbatim>\<open>f\<close> is object 1, \<^verbatim>\<open>g\<close> object 2 and the string
  under \<^verbatim>\<open>__name__\<close> object 3.
\<close>

definition alias_scenario :: heap where
  "alias_scenario =
     (case decorator just_decorator empty_heap of (jd, h1) \<Rightarrow>
      case def_function ''f'' h1 of (f, h2) \<Rightarrow>
      case new_decorator just_decorator jd f h2 of
        Return g h3 \<Rightarrow> snd (alloc_obj Other h3)
      | Raise e h3 \<Rightarrow> h3
      | Hang \<Rightarrow> h2)"

definition alias_module :: pymodule where
  "alias_module = \<lparr>mdir = [''__name__'', ''f'', ''g''], mdict = [(''__name__'', 3), (''f'', 1), (''g'', 2)]\<rparr>"

text \<open>
  The same class, and in the module next to it \<^verbatim>\<open>@jd def g(): pass\<close> and the alias
  \<^verbatim>\<open>h = g\<close>: the original \<^verbatim>\<open>g\<close> is object 5 and the wrapper bound to \<^verbatim>\<open>g\<close> and
  \<^verbatim>\<open>h\<close> object 6.
\<close>

definition mixed_scenario :: heap where
  "mixed_scenario =
     (case def_function ''g'' static_scenario of (g, h1) \<Rightarrow>
      case new_decorator just_decorator 0 g h1 of
        Return w h2 \<Rightarrow> h2
      | Raise e h2 \<Rightarrow> h2
      | Hang \<Rightarrow> h1)"

definition mixed_module :: pymodule where
  "mixed_module = \<lparr>mdir = [''C'', ''g'', ''h''], mdict = [(''C'', 4), (''g'', 6), (''h'', 6)]\<rparr>"

text \<open>
  \<^verbatim>\<open>rdwa = DecoratorRegistry.parametrized_decorator(decorator_with_args)\<close>,
  \<^verbatim>\<open>def somefunc(): pass\<close>, \<^verbatim>\<open>inner = rdwa(1, 2, 3)\<close>:
  \<^verbatim>\<open>rdwa\<close> is object 0, \<^verbatim>\<open>somefunc\<close> object 1 and \<^verbatim>\<open>inner\<close> object 2; the call
  \<^verbatim>\<open>inner(somefunc)\<close> will create object 3.
\<close>

definition param_heap :: heap where
  "param_heap =
     (case parametrized_decorator decorator_with_args empty_heap of (outer, h1) \<Rightarrow>
      case def_function ''somefunc'' h1 of (f, h2) \<Rightarrow>
        snd (new_parametrized_decorator decorator_with_args [1, 2, 3] h2))"

text \<open>
  \<^verbatim>\<open>jd = DecoratorRegistry.decorator(just_decorator)\<close> and
  \<^verbatim>\<open>def fa(native_function: int = 0): pass\<close>, a function no decorator is applied to:
  \<^verbatim>\<open>jd\<close> is object 0, the built-in type \<^verbatim>\<open>int\<close> object 1 (only its lack of
  \<^verbatim>\<open>__annotations__\<close> is read) and \<^verbatim>\<open>fa\<close> object 2, created with
  \<^verbatim>\<open>__annotations__ = {'native_function': int}\<close>.
\<close>

definition annotated_scenario :: heap where
  "annotated_scenario =
     (case decorator just_decorator empty_heap of (jd, h1) \<Rightarrow>
      case alloc_obj Other h1 of (int_type, h2) \<Rightarrow>
        snd (def_annotated ''fa'' (no_keys\<lparr>NATIVE_FUNCTION := Some int_type\<rparr>) h2))"


text \<open>
  With \<^verbatim>\<open>jd\<close> registered (object 0), the module
  \<^verbatim>\<open>class C: @jd def run(self): pass\<close> and \<^verbatim>\<open>@jd def run(): pass\<close>: the original of
  the method is object 1 and its wrapper, bound in the class, object 2; the class is object 3;
  the original of the top-level function is object 4 and its wrapper, bound in the module,
  object 5. \<^verbatim>\<open>dir\<close> lists names in sorted order.
\<close>

definition names_scenario :: heap where
  "names_scenario =
     (case decorator just_decorator empty_heap of (jd, h1) \<Rightarrow>
      case def_function ''run'' h1 of (m, h2) \<Rightarrow>
      case new_decorator just_decorator jd m h2 of
        Return w h3 \<Rightarrow>
          (case alloc_obj (Class ''C'' [''__init__'', ''run''] [(''run'', w)] None) h3 of (c, h4) \<Rightarrow>
           case def_function ''run'' h4 of (f, h5) \<Rightarrow>
           case new_decorator just_decorator jd f h5 of
             Return w' h6 \<Rightarrow> h6
           | Raise e h6 \<Rightarrow> h6
           | Hang \<Rightarrow> h5)
      | Raise e h3 \<Rightarrow> h3
      | Hang \<Rightarrow> h2)"

definition names_module :: pymodule where
  "names_module = \<lparr>mdir = [''C'', ''run''], mdict = [(''C'', 3), (''run'', 5)]\<rparr>"

text \<open>
  A module that imported \<^verbatim>\<open>g\<close> alone from the module \<^verbatim>\<open>def f(): pass\<close>, \<^verbatim>\<open>g = jd(f)\<close>
  above: it binds the wrapper (object 2) and nothing under the name \<^verbatim>\<open>f\<close>.
\<close>

definition wrapper_only_module :: pymodule where
  "wrapper_only_module = \<lparr>mdir = [''g''], mdict = [(''g'', 2)]\<rparr>"

text \<open>
  \<^verbatim>\<open>rl = DecoratorRegistry.decorator(logged)\<close>, \<^verbatim>\<open>jd = DecoratorRegistry.decorator(just_decorator)\<close>,
  \<^verbatim>\<open>@jd def f(): pass\<close>: \<^verbatim>\<open>rl\<close> is object 0, \<^verbatim>\<open>jd\<close> object 1, the original \<^verbatim>\<open>f\<close>
  object 2 and the wrapper \<^verbatim>\<open>jd(f)\<close> object 3.
\<close>

definition stacked_scenario :: heap where
  "stacked_scenario =
     (case decorator wraps_decorator empty_heap of (rl, h1) \<Rightarrow>
      case decorator just_decorator h1 of (jd, h2) \<Rightarrow>
      case def_function ''f'' h2 of (f, h3) \<Rightarrow>
      case new_decorator just_decorator jd f h3 of
        Return w h4 \<Rightarrow> h4
      | Raise e h4 \<Rightarrow> h4
      | Hang \<Rightarrow> h3)"

section \<open>Basic facts\<close>

lemma and_then_simps [simp]:
  "and_then (Return a h) k = k a h"
  "and_then (Raise e h) k = Raise e h"
  "and_then Hang k = Hang"
  by (simp_all add: and_then_def)

lemma on_return_simps [simp]:
  "on_return (Return a h) s k = k a h"
  "on_return (Raise e h) s k = (s, Raise e h)"
  "on_return Hang s k = (s, Hang)"
  by (simp_all add: on_return_def)

lemma follow_stop:
  "get_ann (objs h r) = Some a \<Longrightarrow> NATIVE_FUNCTION (dicts h a) = None \<Longrightarrow> follow h r = Some (Inr r)"
  by (subst follow.simps) simp

lemma follow_step:
  "get_ann (objs h r) = Some a \<Longrightarrow> NATIVE_FUNCTION (dicts h a) = Some n \<Longrightarrow> follow h r = follow h n"
  by (subst follow.simps) simp


lemma follow_self_aux:
  "follow h' r' = Some y \<Longrightarrow> get_ann (objs h' r) = Some a \<Longrightarrow> NATIVE_FUNCTION (dicts h' a) = Some r \<Longrightarrow> r' \<noteq> r"
  by (rule follow.raw_induct [where P = "\<lambda>h r' y. \<forall>a. get_ann (objs h r) = Some a \<longrightarrow> NATIVE_FUNCTION (dicts h a) = Some r \<longrightarrow> r' \<noteq> r", rule_format])
     (auto split: option.splits, blast)

text \<open>The loop never ends on a function whose \<^verbatim>\<open>native_function\<close> is the function itself.\<close>

lemma follow_self:
  "get_ann (objs h r) = Some a \<Longrightarrow> NATIVE_FUNCTION (dicts h a) = Some r \<Longrightarrow> follow h r = None"
  using follow_self_aux [of h r _ r a] by (cases "follow h r") auto

lemma follow_self_the:
  "get_ann (objs h r) \<noteq> None \<Longrightarrow> NATIVE_FUNCTION (dicts h (the (get_ann (objs h r)))) = Some r \<Longrightarrow> follow h r = None"
  using follow_self [of h r "the (get_ann (objs h r))"] by auto

lemma follow_stop_the:
  "get_ann (objs h r) \<noteq> None \<Longrightarrow> NATIVE_FUNCTION (dicts h (the (get_ann (objs h r)))) = None \<Longrightarrow> follow h r = Some (Inr r)"
  using follow_stop [of h r "the (get_ann (objs h r))"] by auto

lemma follow_step_the:
  "get_ann (objs h r) \<noteq> None \<Longrightarrow> NATIVE_FUNCTION (dicts h (the (get_ann (objs h r)))) = Some n \<Longrightarrow> n \<noteq> r \<Longrightarrow> follow h r = follow h n"
  using follow_step [of h r "the (get_ann (objs h r))"] by auto

lemmas run_defs = new_decorator_def new_decorator_p_def get_native_function_def getfn_def make_portable_def
     set_decorator_def set_native_function_def set_item_def append_decorator_def no_keys_def get_decorators_def
     get_real_function_def is_decorated_with_def alloc_obj_def decorator_def def_function_def empty_heap_def
     parametrized_decorator_def new_parametrized_decorator_def tracking_def

lemmas scan_defs = decorated_methods_def decorated_methods_body_def native_name_def emit_def visit_def
     method_step_def functions_block_def methods_block_def module_step_def scan_module_def collect_def
     all_decorated_module_functions_def decorated_with_def module_functions_decorated_with_def

section \<open>Well-formed heaps and resolution\<close>

lemma wf_obj_lt: "wf h \<Longrightarrow> objs h r \<noteq> Other \<Longrightarrow> r < next_obj h"
  unfolding wf_def by (meson not_le)

lemma wf_ann_lt: "wf h \<Longrightarrow> get_ann (objs h r) = Some a \<Longrightarrow> a < next_dict h"
  unfolding wf_def by blast

lemma make_portable_cases:
  "make_portable t h = Return x h' \<Longrightarrow>
     x = t \<and> ((get_ann (objs h t) \<noteq> None \<and> h' = h)
        \<or> (get_ann (objs h t) = None \<and> (\<exists>ob. set_ann (objs h t) (next_dict h) = Some ob
              \<and> h' = h\<lparr>objs := (objs h)(t := ob), dicts := (dicts h)(next_dict h := no_keys),
                       next_dict := Suc (next_dict h)\<rparr>)))"
  by (auto simp: make_portable_def split: option.splits)

lemma set_ann_get_ann: "set_ann ob d = Some ob' \<Longrightarrow> get_ann ob' = Some d"
  by (cases ob) auto

lemma make_portable_wf:
  assumes "wf h" "make_portable t h = Return x h'"
  shows "wf h'"
proof -
  from make_portable_cases [OF assms(2)] consider (same) "h' = h"
    | (new) ob where "get_ann (objs h t) = None" "set_ann (objs h t) (next_dict h) = Some ob"
        "h' = h\<lparr>objs := (objs h)(t := ob), dicts := (dicts h)(next_dict h := no_keys),
                 next_dict := Suc (next_dict h)\<rparr>"
    by auto
  then show ?thesis
  proof cases
    case same
    with assms(1) show ?thesis by simp
  next
    case new
    from new(2) have nO: "objs h t \<noteq> Other" by auto
    from new(2) have g: "get_ann ob = Some (next_dict h)" by (rule set_ann_get_ann)
    from new(2) have obO: "ob \<noteq> Other" by (cases "objs h t") auto
    have 1: "\<forall>r. next_obj h' \<le> r \<longrightarrow> objs h' r = Other"
      using assms(1) nO unfolding wf_def new(3) by auto
    have 2: "\<forall>r a. get_ann (objs h' r) = Some a \<longrightarrow> a < next_dict h'"
      using assms(1) g unfolding wf_def new(3) by (auto simp: less_Suc_eq)
    from 1 2 show ?thesis unfolding wf_def by simp
  qed
qed

lemma getfn_has_ann: "get_ann (objs h x) \<noteq> None \<Longrightarrow> getfn x h = Return x h"
  by (cases "objs h x") (auto simp: getfn_def make_portable_def)

lemma follow_Inr_aux:
  "follow h r = Some y \<Longrightarrow> y = Inr x \<Longrightarrow> (\<exists>a. get_ann (objs h x) = Some a \<and> NATIVE_FUNCTION (dicts h a) = None)"
  by (rule follow.raw_induct [where P = "\<lambda>h r y. y = Inr x \<longrightarrow> (\<exists>a. get_ann (objs h x) = Some a \<and> NATIVE_FUNCTION (dicts h a) = None)", rule_format])
     (auto split: option.splits)

lemma follow_Inr:
  "follow h r = Some (Inr x) \<Longrightarrow> \<exists>a. get_ann (objs h x) = Some a \<and> NATIVE_FUNCTION (dicts h a) = None"
  using follow_Inr_aux by blast

lemma get_native_function_Return:
  assumes "wf h" "get_native_function fn h = Return f0 h'"
  shows "wf h'" "next_obj h' = next_obj h"
    "\<exists>a0. get_ann (objs h' f0) = Some a0 \<and> NATIVE_FUNCTION (dicts h' a0) = None"
    "\<And>x. x \<noteq> f0 \<Longrightarrow> objs h' x = objs h x"
    "\<And>n a. objs h f0 = Function n a \<Longrightarrow> \<exists>a'. objs h' f0 = Function n a'"
proof -
  define t where "t = (case objs h fn of StaticMethod f \<Rightarrow> f | ClassMethod f \<Rightarrow> f | _ \<Rightarrow> fn)"
  from assms(2) obtain h1 where mp: "make_portable t h = Return t h1"
    and fl: "(case follow h1 t of None \<Rightarrow> Hang | Some (Inl e) \<Rightarrow> Raise e h1 | Some (Inr r) \<Rightarrow> Return r h1) = Return f0 h'"
    unfolding get_native_function_def getfn_def t_def [symmetric]
    by (cases "make_portable t h") (auto simp: and_then_def dest: make_portable_cases)
  from fl have h': "h' = h1" and f0: "follow h1 t = Some (Inr f0)"
    by (auto split: option.splits sum.splits)
  from make_portable_wf [OF assms(1) mp] h' show "wf h'" by simp
  from make_portable_cases [OF mp] h' show "next_obj h' = next_obj h" by auto
  from follow_Inr [OF f0] h' show "\<exists>a0. get_ann (objs h' f0) = Some a0 \<and> NATIVE_FUNCTION (dicts h' a0) = None"
    by simp
  have changed: "objs h1 t \<noteq> objs h t \<Longrightarrow> f0 = t"
  proof -
    assume "objs h1 t \<noteq> objs h t"
    with make_portable_cases [OF mp] obtain ob where
      "get_ann (objs h t) = None" "set_ann (objs h t) (next_dict h) = Some ob"
      "h1 = h\<lparr>objs := (objs h)(t := ob), dicts := (dicts h)(next_dict h := no_keys), next_dict := Suc (next_dict h)\<rparr>"
      by auto
    then have "follow h1 t = Some (Inr t)"
      by (intro follow_stop [where a = "next_dict h"]) (auto simp: no_keys_def dest: set_ann_get_ann)
    with f0 show "f0 = t" by simp
  qed
  show "\<And>x. x \<noteq> f0 \<Longrightarrow> objs h' x = objs h x"
    using make_portable_cases [OF mp] h' changed by (cases "objs h1 t = objs h t") auto
  show "\<And>n a. objs h f0 = Function n a \<Longrightarrow> \<exists>a'. objs h' f0 = Function n a'"
    using make_portable_cases [OF mp] h' by (auto split: if_splits)
qed

lemma getfn_new_function:
  "objs h x = Function n None \<Longrightarrow>
   getfn x h = Return x (h\<lparr>objs := (objs h)(x := Function n (Some (next_dict h))),
                             dicts := (dicts h)(next_dict h := no_keys),
                             next_dict := Suc (next_dict h)\<rparr>)"
  by (simp add: getfn_def make_portable_def)

lemma get_native_function_stop:
  "get_ann (objs h x) = Some a \<Longrightarrow> NATIVE_FUNCTION (dicts h a) = None \<Longrightarrow>
   get_native_function x h = Return x h"
  by (simp add: get_native_function_def getfn_has_ann follow_stop)

lemma get_native_function_one:
  "get_ann (objs h x) = Some a \<Longrightarrow> NATIVE_FUNCTION (dicts h a) = Some y \<Longrightarrow>
   get_ann (objs h y) = Some b \<Longrightarrow> NATIVE_FUNCTION (dicts h b) = None \<Longrightarrow>
   get_native_function x h = Return y h"
  by (simp add: get_native_function_def getfn_has_ann follow_stop follow_step)

lemma append_decorator_eq:
  "append_decorator fn deco h =
     and_then (get_native_function fn h) (\<lambda>native_fn.
       set_item native_fn (\<lambda>d. d\<lparr>DECORATORS := Some (add_once deco (decorators_of d))\<rparr>))"
  by (simp add: append_decorator_def add_once_def decorators_of_def Let_def)

lemma get_native_function_tracked:
  assumes "get_ann (objs h x) \<noteq> None" "NATIVE_FUNCTION (tracking h x) = Some y"
    "get_ann (objs h y) \<noteq> None" "NATIVE_FUNCTION (tracking h y) = None"
  shows "get_native_function x h = Return y h"
  using assms by (auto simp: tracking_def intro: get_native_function_one)

lemma get_decorators_tracked:
  assumes "get_native_function x h = Return y h" "get_ann (objs h y) \<noteq> None"
  shows "get_decorators x h = Return (decorators_of (tracking h y)) h"
  using assms by (auto simp: get_decorators_def tracking_def decorators_of_def)

lemma add_once_member: "d \<in> set (add_once d ds)"
  by (simp add: add_once_def)

lemma add_once_set: "set (add_once d ds) = insert d (set ds)"
  by (auto simp: add_once_def)

lemma add_once_distinct: "distinct ds \<Longrightarrow> distinct (add_once d ds)"
  by (auto simp: add_once_def)

lemma wf_mixed_scenario: "wf mixed_scenario"
  by (auto simp: wf_def run_defs just_decorator_def static_scenario_def mixed_scenario_def
      follow_stop_the follow_step_the split: if_splits)

section \<open>The heaps of the examples\<close>

text \<open>The objects and dictionaries the example programs leave, address by address.\<close>

lemma identity_scenario_contents:
  "map (objs identity_scenario) [0, 1] = [Function ''register'' None, Function ''f'' None]"
  by (simp add: run_defs identity_scenario_def identity_decorator_def)

lemma wraps_scenario_contents:
  "map (objs wraps_scenario) [0, 1] = [Function ''logged'' None, Function ''f'' None]"
  by (simp add: run_defs wraps_scenario_def wraps_decorator_def)

lemma static_scenario_contents:
  "map (objs static_scenario) [0, 1, 2, 3, 4] =
     [Function ''just_decorator'' (Some 2), Function ''m'' (Some 0), Function ''wrapper'' (Some 1),
      StaticMethod 2, Class ''C'' [''__init__'', ''m''] [(''m'', 3)] None]"
  "map (dicts static_scenario) [0, 1, 2] =
     [\<lparr>NATIVE_FUNCTION = None, DECORATOR = None, DECORATORS = Some [0]\<rparr>,
      \<lparr>NATIVE_FUNCTION = Some 1, DECORATOR = Some 0, DECORATORS = None\<rparr>,
      \<lparr>NATIVE_FUNCTION = Some 1, DECORATOR = None, DECORATORS = None\<rparr>]"
  by (simp_all add: run_defs static_scenario_def just_decorator_def follow_stop_the)

lemma alias_scenario_contents:
  "map (objs alias_scenario) [0, 1, 2, 3] =
     [Function ''just_decorator'' (Some 2), Function ''f'' (Some 0), Function ''wrapper'' (Some 1), Other]"
  "map (dicts alias_scenario) [0, 1, 2] =
     [\<lparr>NATIVE_FUNCTION = None, DECORATOR = None, DECORATORS = Some [0]\<rparr>,
      \<lparr>NATIVE_FUNCTION = Some 1, DECORATOR = Some 0, DECORATORS = None\<rparr>,
      \<lparr>NATIVE_FUNCTION = Some 1, DECORATOR = None, DECORATORS = None\<rparr>]"
  by (simp_all add: run_defs alias_scenario_def just_decorator_def follow_stop_the)

lemma mixed_scenario_contents:
  "map (objs mixed_scenario) [0, 1, 2, 3, 4, 5, 6] =
     [Function ''just_decorator'' (Some 2), Function ''m'' (Some 0), Function ''wrapper'' (Some 1),
      StaticMethod 2, Class ''C'' [''__init__'', ''m''] [(''m'', 3)] None,
      Function ''g'' (Some 3), Function ''wrapper'' (Some 4)]"
  "map (dicts mixed_scenario) [0, 1, 2, 3, 4] =
     [\<lparr>NATIVE_FUNCTION = None, DECORATOR = None, DECORATORS = Some [0]\<rparr>,
      \<lparr>NATIVE_FUNCTION = Some 1, DECORATOR = Some 0, DECORATORS = None\<rparr>,
      \<lparr>NATIVE_FUNCTION = Some 5, DECORATOR = None, DECORATORS = None\<rparr>,
      \<lparr>NATIVE_FUNCTION = None, DECORATOR = None, DECORATORS = Some [0]\<rparr>,
      \<lparr>NATIVE_FUNCTION = Some 5, DECORATOR = Some 0, DECORATORS = None\<rparr>]"
  by (simp_all add: run_defs mixed_scenario_def static_scenario_def just_decorator_def
      follow_stop_the follow_step_the)

lemma param_heap_contents:
  "map (objs param_heap) [0, 1, 2] =
     [Function ''decorator_with_args'' None, Function ''somefunc'' None, Function ''decorator'' None]"
  by (simp add: run_defs param_heap_def decorator_with_args_def)

lemma annotated_scenario_contents:
  "map (objs annotated_scenario) [0, 1, 2] = [Function ''just_decorator'' None, Other, Function ''fa'' (Some 0)]"
  "dicts annotated_scenario 0 = \<lparr>NATIVE_FUNCTION = Some 1, DECORATOR = None, DECORATORS = None\<rparr>"
  "wf annotated_scenario"
  by (simp_all add: run_defs annotated_scenario_def def_annotated_def just_decorator_def wf_def)

lemma names_scenario_contents:
  "map (objs names_scenario) [0, 1, 2, 3, 4, 5] =
     [Function ''just_decorator'' (Some 2), Function ''run'' (Some 0), Function ''wrapper'' (Some 1),
      Class ''C'' [''__init__'', ''run''] [(''run'', 2)] None,
      Function ''run'' (Some 3), Function ''wrapper'' (Some 4)]"
  "map (dicts names_scenario) [0, 1, 2, 3, 4] =
     [\<lparr>NATIVE_FUNCTION = None, DECORATOR = None, DECORATORS = Some [0]\<rparr>,
      \<lparr>NATIVE_FUNCTION = Some 1, DECORATOR = Some 0, DECORATORS = None\<rparr>,
      \<lparr>NATIVE_FUNCTION = Some 4, DECORATOR = None, DECORATORS = None\<rparr>,
      \<lparr>NATIVE_FUNCTION = None, DECORATOR = None, DECORATORS = Some [0]\<rparr>,
      \<lparr>NATIVE_FUNCTION = Some 4, DECORATOR = Some 0, DECORATORS = None\<rparr>]"
  by (simp_all add: run_defs names_scenario_def just_decorator_def follow_stop_the follow_step_the)

lemma stacked_scenario_contents:
  "map (objs stacked_scenario) [0, 1, 2, 3] =
     [Function ''logged'' None, Function ''just_decorator'' (Some 2), Function ''f'' (Some 0),
      Function ''wrapper'' (Some 1)]"
  by (simp add: run_defs stacked_scenario_def just_decorator_def wraps_decorator_def follow_stop_the follow_step_the)

text \<open>
  A method bound to the wrapper itself is found, through the class and through an instance:
  \<^verbatim>\<open>class D: m = jd(m)\<close> is object 5 and \<^verbatim>\<open>D()\<close> object 6.
\<close>

lemma function_method_found:
  "fst (decorated_methods 5 0 (snd (alloc_obj (Class ''D'' [''m''] [(''m'', 2)] None) static_scenario)))
     = [(''m'', 2)]"
  "fst (decorated_methods 6 0 (snd (alloc_obj (Instance 5 None)
          (snd (alloc_obj (Class ''D'' [''m''] [(''m'', 2)] None) static_scenario)))))
     = [(''m'', 2)]"
  by (simp_all add: run_defs scan_defs static_scenario_def just_decorator_def
      follow_stop_the follow_step_the find_class.simps)

section \<open>Functions the registry never touched\<close>




section \<open>A decorator that returns its argument\<close>

text \<open>
  C1. The claim promises, for every registered decorator applied to a plain function, a result
  whose real function is that function. With the decorator \<^verbatim>\<open>register\<close>, which hands its
  argument back, the call \<^verbatim>\<open>rd(f)\<close> of the registered wrapper never returns: there is no
  result to query.
\<close>

theorem identity_application_hangs:
  "new_decorator identity_decorator 0 1 identity_scenario = Hang"
  apply (simp add: run_defs identity_decorator_def identity_scenario_def follow_stop_the)
  apply (simp add: follow_self_the)
  done

text \<open>
  C5. In the same call, \<^verbatim>\<open>_set_decorator(fn_decorator, new_decorator)\<close> and
  \<^verbatim>\<open>_set_native_function(fn_decorator, native_fn)\<close> run with \<^verbatim>\<open>fn_decorator\<close> and
  \<^verbatim>\<open>native_fn\<close> both \<^verbatim>\<open>f\<close>: they leave \<^verbatim>\<open>f\<close> as its own \<^verbatim>\<open>native_function\<close>, a cyclic
  chain, on which neither \<^verbatim>\<open>get_real_function\<close> nor \<^verbatim>\<open>get_decorators\<close> terminates.
\<close>

theorem identity_cycle:
  "(case and_then (set_decorator 1 0 identity_scenario) (\<lambda>_. set_native_function 1 1) of
      Return u h \<Rightarrow> NATIVE_FUNCTION (tracking h 1) = Some 1 \<and> get_real_function 1 h = Hang \<and> get_decorators 1 h = Hang
    | Raise e h \<Rightarrow> False
    | Hang \<Rightarrow> False)"
  by (simp add: run_defs identity_decorator_def identity_scenario_def follow_self_the)

text \<open>
  C2. The claim speaks of every sequence of applications of registered wrappers. A decorator
  built with \<^verbatim>\<open>functools.wraps\<close> gives its wrapper the \<^verbatim>\<open>__annotations__\<close> dictionary of the
  original; the registry then writes \<^verbatim>\<open>native_function\<close> into that shared dictionary, and
  the first application never returns.
\<close>

theorem wraps_application_hangs:
  "new_decorator wraps_decorator 0 1 wraps_scenario = Hang"
  apply (simp add: run_defs wraps_decorator_def wraps_scenario_def follow_stop_the)
  apply (simp add: follow_self_the)
  done

section \<open>Scans at concrete inputs\<close>

text \<open>
  C3. The method \<^verbatim>\<open>m\<close> of \<^verbatim>\<open>C\<close> is declared through \<^verbatim>\<open>staticmethod\<close> and its original is
  marked with \<^verbatim>\<open>jd\<close> (\<^verbatim>\<open>get_decorators\<close> on the staticmethod object says so), yet
  \<^verbatim>\<open>decorated_methods(C, jd)\<close> yields nothing: its test \<^verbatim>\<open>type(method) is types.FunctionType\<close>
  passes the entry over. The scan of the module, which tests for the three types, yields it.
\<close>

theorem static_method_skipped:
  "decorated_methods 4 0 static_scenario = ([], Return () static_scenario)
   \<and> get_decorators 3 static_scenario = Return [0] static_scenario
   \<and> all_decorated_module_functions static_module False False static_scenario
        = ([(''C.m'', Some 3)], Return () static_scenario)"
  by (simp add: run_defs scan_defs just_decorator_def static_scenario_def static_module_def
      follow_stop_the follow_step_the find_class.simps)

text \<open>
  C6. The module binds the original \<^verbatim>\<open>f\<close> next to its decorated form \<^verbatim>\<open>g\<close>. The scan finds
  decorators on \<^verbatim>\<open>f\<close> and reads \<^verbatim>\<open>f.__annotations__[NATIVE_FUNCTION]\<close>, a key the original
  does not have: both module scans raise \<^verbatim>\<open>KeyError\<close>.
\<close>

theorem scan_raises_KeyError:
  "all_decorated_module_functions alias_module False False alias_scenario = ([], Raise KeyError alias_scenario)
   \<and> module_functions_decorated_with alias_module 0 False False alias_scenario = ([], Raise KeyError alias_scenario)
   \<and> get_decorators 1 alias_scenario = Return [0] alias_scenario"
  by (simp add: run_defs scan_defs just_decorator_def alias_scenario_def alias_module_def
      follow_stop_the follow_step_the)

text \<open>
  C4. The scan is to yield each decorated top-level function and each decorated method, the
  two flags each suppressing its own kind only. The module holds the class \<^verbatim>\<open>C\<close> with the
  decorated method \<^verbatim>\<open>run\<close> and the decorated top-level function \<^verbatim>\<open>run\<close> (the wrapper,
  object 5, on which \<^verbatim>\<open>get_decorators\<close> returns \<^verbatim>\<open>[jd]\<close>). The two lookups share the list
  \<^verbatim>\<open>module_names\<close>, which records the bare resolved name: the method, met first, records
  \<^verbatim>\<open>run\<close>, and the top-level function is passed over. The default scan yields \<^verbatim>\<open>C.run\<close>
  only; the function is yielded when methods are excluded, so \<^verbatim>\<open>exclude_methods\<close> decides
  about a top-level entry.
\<close>

theorem same_name_function_dropped:
  "all_decorated_module_functions names_module False False names_scenario
     = ([(''C.run'', Some 2)], Return () names_scenario)
   \<and> all_decorated_module_functions names_module True False names_scenario
     = ([(''run'', Some 5)], Return () names_scenario)
   \<and> all_decorated_module_functions names_module False True names_scenario
     = ([(''C.run'', Some 2)], Return () names_scenario)
   \<and> get_decorators 5 names_scenario = Return [0] names_scenario
   \<and> get_real_function 5 names_scenario = Return 4 names_scenario"
  by (simp add: run_defs scan_defs just_decorator_def names_scenario_def names_module_def
      follow_stop_the follow_step_the)

text \<open>
  The value of a top-level entry is what the module binds under the resolved name, not the
  object that was found: for a module that binds the wrapper under another name only, the
  entry is the name of the original with the value \<^verbatim>\<open>None\<close>.
\<close>

lemma wrapper_only_scan:
  "all_decorated_module_functions wrapper_only_module False False alias_scenario
     = ([(''f'', None)], Return () alias_scenario)"
  by (simp add: run_defs scan_defs just_decorator_def alias_scenario_def wrapper_only_module_def
      follow_stop_the follow_step_the)

section \<open>One application of a registered decorator\<close>

text \<open>
  A write of the registry on a function, seen through the tracking keys: it shows on the
  objects that hold the same dictionary and on no other, and it changes neither which objects
  share a dictionary nor any object that already had one.
\<close>

lemma same_map_sym: "same_map h x y = same_map h y x"
  unfolding same_map_def by metis

lemma same_map_refl [simp]: "same_map h x x"
  by (simp add: same_map_def)

lemma set_item_effect:
  assumes wf: "wf h" and x: "get_ann (objs h x) = Some a"
  shows "\<exists>h'. set_item x upd h = Return () h' \<and> wf h' \<and> objs h' = objs h
      \<and> (\<forall>y. tracking h' y = (if same_map h x y then upd (tracking h x) else tracking h y))
      \<and> (\<forall>y z. same_map h' y z = same_map h y z)"
proof -
  define h' where "h' = h\<lparr>dicts := (dicts h)(a := upd (dicts h a))\<rparr>"
  have 1: "set_item x upd h = Return () h'" using x by (simp add: set_item_def h'_def)
  have 2: "wf h'" using wf by (simp add: wf_def h'_def)
  have 3: "objs h' = objs h" by (simp add: h'_def)
  have 4: "tracking h' y = (if same_map h x y then upd (tracking h x) else tracking h y)" for y
    using x by (auto simp: tracking_def same_map_def h'_def split: option.splits)
  have 5: "same_map h' y z = same_map h y z" for y z
    by (simp add: same_map_def 3)
  from 1 2 3 4 5 show ?thesis by blast
qed

lemma write_effect:
  assumes wf: "wf h" and x: "is_function (objs h x)"
  shows "\<exists>h'. and_then (getfn x h) (\<lambda>fn. set_item fn upd) = Return () h' \<and> wf h'
      \<and> (\<forall>y. tracking h' y = (if same_map h x y then upd (tracking h x) else tracking h y))
      \<and> (\<forall>y z. same_map h' y z = same_map h y z)
      \<and> (\<forall>y. y \<noteq> x \<longrightarrow> objs h' y = objs h y)
      \<and> (\<forall>y. is_function (objs h y) \<longrightarrow> is_function (objs h' y))
      \<and> (\<forall>y. get_ann (objs h y) \<noteq> None \<longrightarrow> objs h' y = objs h y)
      \<and> get_ann (objs h' x) \<noteq> None"
proof -
  from x obtain n a where xo: "objs h x = Function n a" by (cases "objs h x") auto
  show ?thesis
  proof (cases a)
    case (Some d)
    with xo have g: "get_ann (objs h x) = Some d" by simp
    from set_item_effect [OF wf g, of upd] obtain h' where
      "set_item x upd h = Return () h'" "wf h'" "objs h' = objs h"
      "\<forall>y. tracking h' y = (if same_map h x y then upd (tracking h x) else tracking h y)"
      "\<forall>y z. same_map h' y z = same_map h y z"
      by blast
    with g show ?thesis by (auto simp: getfn_has_ann)
  next
    case None
    define d where "d = next_dict h"
    define h' where "h' = h\<lparr>objs := (objs h)(x := Function n (Some d)),
        dicts := (dicts h)(d := upd no_keys), next_dict := Suc d\<rparr>"
    have fresh: "get_ann (objs h y) \<noteq> Some d" for y
      using wf_ann_lt [OF wf, of y d] by (auto simp: d_def)
    have fresh': "Some d \<noteq> get_ann (objs h y)" for y
      using fresh [of y] by metis
    have 1: "and_then (getfn x h) (\<lambda>fn. set_item fn upd) = Return () h'"
      using xo None by (simp add: getfn_new_function set_item_def h'_def d_def)
    have 2: "wf h'"
      using wf xo unfolding wf_def h'_def d_def by (auto simp: less_Suc_eq)
    have 3: "tracking h' y = (if same_map h x y then upd (tracking h x) else tracking h y)" for y
      using xo None fresh [of y] fresh' [of y]
      by (auto simp: tracking_def same_map_def h'_def split: option.splits)
    have 4: "same_map h' y z = same_map h y z" for y z
      using xo None fresh [of y] fresh [of z] fresh' [of y] fresh' [of z]
      by (auto simp: same_map_def h'_def)
    have 5: "\<forall>y. y \<noteq> x \<longrightarrow> objs h' y = objs h y" by (simp add: h'_def)
    have 6: "\<forall>y. is_function (objs h y) \<longrightarrow> is_function (objs h' y)" by (simp add: h'_def)
    have 7: "\<forall>y. get_ann (objs h y) \<noteq> None \<longrightarrow> objs h' y = objs h y"
      using xo None by (auto simp: h'_def)
    have 8: "get_ann (objs h' x) \<noteq> None" by (simp add: h'_def)
    from 1 2 3 4 5 6 7 8 show ?thesis by blast
  qed
qed

lemma new_decorator_as_p: "new_decorator nd self fn h = new_decorator_p nd self self fn h"
  by (simp add: new_decorator_def new_decorator_p_def)

lemma get_native_function_self:
  assumes "get_ann (objs h x) \<noteq> None" "NATIVE_FUNCTION (tracking h x) = None"
  shows "get_native_function x h = Return x h"
  using assms by (auto simp: tracking_def intro: get_native_function_stop)

lemma same_map_tracking: "same_map h x y \<Longrightarrow> tracking h x = tracking h y"
  by (auto simp: same_map_def tracking_def)

lemma application_steps:
  assumes wf: "wf h2"
    and r: "is_function (objs h2 r)" and outer: "is_function (objs h2 outer)"
    and f0: "get_ann (objs h2 f0) \<noteq> None" "NATIVE_FUNCTION (tracking h2 f0) = None"
    and rf: "\<not> same_map h2 r f0" and orf: "\<not> same_map h2 outer f0"
  shows "\<exists>h'. and_then (set_decorator r inner h2) (\<lambda>_ h3.
          and_then (set_native_function r f0 h3) (\<lambda>_ h4.
          and_then (set_native_function outer f0 h4) (\<lambda>_ h5.
          and_then (append_decorator f0 outer h5) (\<lambda>_ h6. Return r h6)))) = Return r h'
        \<and> wf h'
        \<and> NATIVE_FUNCTION (tracking h' r) = Some f0 \<and> DECORATOR (tracking h' r) = Some inner
        \<and> NATIVE_FUNCTION (tracking h' outer) = Some f0
        \<and> tracking h' f0 = (tracking h2 f0)\<lparr>DECORATORS := Some (add_once outer (decorators_of (tracking h2 f0)))\<rparr>
        \<and> get_ann (objs h' r) \<noteq> None \<and> get_ann (objs h' outer) \<noteq> None
        \<and> get_ann (objs h' f0) \<noteq> None
        \<and> (\<forall>y. \<not> same_map h2 r y \<longrightarrow> \<not> same_map h2 outer y \<longrightarrow>
              NATIVE_FUNCTION (tracking h' y) = NATIVE_FUNCTION (tracking h2 y))
        \<and> (\<forall>y. y \<noteq> r \<longrightarrow> y \<noteq> outer \<longrightarrow> objs h' y = objs h2 y)"
proof -
  let ?D = "\<lambda>d. d\<lparr>DECORATOR := Some inner\<rparr>"
  let ?N = "\<lambda>d. d\<lparr>NATIVE_FUNCTION := Some f0\<rparr>"
  let ?A = "\<lambda>d. d\<lparr>DECORATORS := Some (add_once outer (decorators_of d))\<rparr>"
  from write_effect [OF wf r, of ?D] obtain h3 where
    s1: "set_decorator r inner h2 = Return () h3" and wf3: "wf h3"
    and t3: "\<And>y. tracking h3 y = (if same_map h2 r y then ?D (tracking h2 r) else tracking h2 y)"
    and m3: "\<And>y z. same_map h3 y z = same_map h2 y z"
    and o3: "\<And>y. y \<noteq> r \<Longrightarrow> objs h3 y = objs h2 y"
    and f3: "\<And>y. is_function (objs h2 y) \<Longrightarrow> is_function (objs h3 y)"
    and k3: "\<And>y. get_ann (objs h2 y) \<noteq> None \<Longrightarrow> objs h3 y = objs h2 y"
    and a3: "get_ann (objs h3 r) \<noteq> None"
    unfolding set_decorator_def by blast
  from write_effect [OF wf3 f3 [OF r], of ?N] obtain h4 where
    s2: "set_native_function r f0 h3 = Return () h4" and wf4: "wf h4"
    and t4: "\<And>y. tracking h4 y = (if same_map h3 r y then ?N (tracking h3 r) else tracking h3 y)"
    and m4: "\<And>y z. same_map h4 y z = same_map h3 y z"
    and o4: "\<And>y. y \<noteq> r \<Longrightarrow> objs h4 y = objs h3 y"
    and f4: "\<And>y. is_function (objs h3 y) \<Longrightarrow> is_function (objs h4 y)"
    and k4: "\<And>y. get_ann (objs h3 y) \<noteq> None \<Longrightarrow> objs h4 y = objs h3 y"
    unfolding set_native_function_def by blast
  from write_effect [OF wf4 f4 [OF f3 [OF outer]], of ?N] obtain h5 where
    s3: "set_native_function outer f0 h4 = Return () h5" and wf5: "wf h5"
    and t5: "\<And>y. tracking h5 y = (if same_map h4 outer y then ?N (tracking h4 outer) else tracking h4 y)"
    and m5: "\<And>y z. same_map h5 y z = same_map h4 y z"
    and o5: "\<And>y. y \<noteq> outer \<Longrightarrow> objs h5 y = objs h4 y"
    and k5: "\<And>y. get_ann (objs h4 y) \<noteq> None \<Longrightarrow> objs h5 y = objs h4 y"
    and a5: "get_ann (objs h5 outer) \<noteq> None"
    unfolding set_native_function_def by blast
  have keep: "objs h5 y = objs h2 y" if "get_ann (objs h2 y) \<noteq> None" for y
    using that k3 [of y] k4 [of y] k5 [of y] by simp
  have r5: "get_ann (objs h5 r) \<noteq> None"
    using a3 k4 [of r] k5 [of r] by simp
  have f05: "get_ann (objs h5 f0) \<noteq> None" using keep [OF f0(1)] f0(1) by simp
  have t05: "tracking h5 f0 = tracking h2 f0"
    using rf orf by (simp add: t5 t4 t3 m4 m3)
  then have "get_native_function f0 h5 = Return f0 h5"
    using f05 f0(2) by (intro get_native_function_self) simp_all
  moreover from f05 obtain a0 where "get_ann (objs h5 f0) = Some a0" by auto
  from set_item_effect [OF wf5 this, of ?A] obtain h6 where
    "set_item f0 ?A h5 = Return () h6" and wf6: "wf h6" and o6: "objs h6 = objs h5"
    and t6: "\<And>y. tracking h6 y = (if same_map h5 f0 y then ?A (tracking h5 f0) else tracking h5 y)"
    by blast
  ultimately have s4: "append_decorator f0 outer h5 = Return () h6"
    by (simp add: append_decorator_eq)
  have run: "and_then (set_decorator r inner h2) (\<lambda>_ h3.
          and_then (set_native_function r f0 h3) (\<lambda>_ h4.
          and_then (set_native_function outer f0 h4) (\<lambda>_ h5.
          and_then (append_decorator f0 outer h5) (\<lambda>_ h6. Return r h6)))) = Return r h6"
    by (simp add: s1 s2 s3 s4)
  have fr: "\<not> same_map h2 f0 r" "\<not> same_map h2 f0 outer"
    using rf orf same_map_sym by blast+
  have c1: "NATIVE_FUNCTION (tracking h6 r) = Some f0"
    using fr by (simp add: t6 t5 t4 m5 m4 m3)
  have c2: "DECORATOR (tracking h6 r) = Some inner"
    using fr same_map_sym [of h2 outer r] by (simp add: t6 t5 t4 t3 m5 m4 m3)
  have c3: "NATIVE_FUNCTION (tracking h6 outer) = Some f0"
    using fr by (simp add: t6 t5 m5 m4 m3)
  have c4: "tracking h6 f0 = ?A (tracking h2 f0)"
    by (simp add: t6 t05)
  have c5: "get_ann (objs h6 r) \<noteq> None" "get_ann (objs h6 outer) \<noteq> None" "get_ann (objs h6 f0) \<noteq> None"
    using r5 a5 f05 by (simp_all add: o6)
  have c6: "\<forall>y. \<not> same_map h2 r y \<longrightarrow> \<not> same_map h2 outer y \<longrightarrow>
              NATIVE_FUNCTION (tracking h6 y) = NATIVE_FUNCTION (tracking h2 y)"
    using rf orf same_map_tracking [of h2 f0] by (auto simp: t6 t5 t4 t3 m5 m4 m3)
  have c7: "\<forall>y. y \<noteq> r \<longrightarrow> y \<noteq> outer \<longrightarrow> objs h6 y = objs h2 y"
    by (simp add: o6 o5 o4 o3)
  from run wf6 c1 c2 c3 c4 c5 c6 c7 show ?thesis by blast
qed

lemma application_effect:
  assumes call: "nd_call nd fn h = (r, h1)" and wf: "wf h1" and r: "is_function (objs h1 r)"
    and res: "get_native_function fn h1 = Return f0 h2" and rf: "\<not> same_map h2 r f0"
    and outer: "is_function (objs h1 outer)" "\<not> same_map h2 outer f0"
  shows "\<exists>h'. new_decorator_p nd outer inner fn h = Return r h' \<and> wf h'
      \<and> NATIVE_FUNCTION (tracking h' r) = Some f0 \<and> DECORATOR (tracking h' r) = Some inner
      \<and> NATIVE_FUNCTION (tracking h' outer) = Some f0
      \<and> tracking h' f0 = (tracking h2 f0)\<lparr>DECORATORS := Some (add_once outer (decorators_of (tracking h2 f0)))\<rparr>
      \<and> NATIVE_FUNCTION (tracking h2 f0) = None
      \<and> get_ann (objs h' r) \<noteq> None \<and> get_ann (objs h' outer) \<noteq> None \<and> get_ann (objs h' f0) \<noteq> None
      \<and> (\<forall>y. \<not> same_map h2 r y \<longrightarrow> \<not> same_map h2 outer y \<longrightarrow>
              NATIVE_FUNCTION (tracking h' y) = NATIVE_FUNCTION (tracking h2 y))
      \<and> (\<forall>y. y \<noteq> r \<longrightarrow> y \<noteq> outer \<longrightarrow> objs h' y = objs h2 y)"
proof -
  note g = get_native_function_Return [OF wf res]
  from g(3) have a0: "get_ann (objs h2 f0) \<noteq> None" "NATIVE_FUNCTION (tracking h2 f0) = None"
    by (auto simp: tracking_def)
  from rf have "r \<noteq> f0" by (auto simp: same_map_def)
  with g(4) [of r] r have r2: "is_function (objs h2 r)" by simp
  from outer(2) have "outer \<noteq> f0" by (auto simp: same_map_def)
  with g(4) [of outer] outer(1) have o2: "is_function (objs h2 outer)" by simp
  from application_steps [OF g(1) r2 o2 a0 rf outer(2), of inner]
  obtain h' where h': "and_then (set_decorator r inner h2) (\<lambda>_ h3.
          and_then (set_native_function r f0 h3) (\<lambda>_ h4.
          and_then (set_native_function outer f0 h4) (\<lambda>_ h5.
          and_then (append_decorator f0 outer h5) (\<lambda>_ h6. Return r h6)))) = Return r h'"
     "wf h'"
     "NATIVE_FUNCTION (tracking h' r) = Some f0" "DECORATOR (tracking h' r) = Some inner"
     "NATIVE_FUNCTION (tracking h' outer) = Some f0"
     "tracking h' f0 = (tracking h2 f0)\<lparr>DECORATORS := Some (add_once outer (decorators_of (tracking h2 f0)))\<rparr>"
     "get_ann (objs h' r) \<noteq> None" "get_ann (objs h' outer) \<noteq> None"
     "get_ann (objs h' f0) \<noteq> None"
     "\<forall>y. \<not> same_map h2 r y \<longrightarrow> \<not> same_map h2 outer y \<longrightarrow>
              NATIVE_FUNCTION (tracking h' y) = NATIVE_FUNCTION (tracking h2 y)"
     "\<forall>y. y \<noteq> r \<longrightarrow> y \<noteq> outer \<longrightarrow> objs h' y = objs h2 y"
    by blast
  have "new_decorator_p nd outer inner fn h = Return r h'"
    using h'(1) by (simp add: new_decorator_p_def call res)
  with a0(2) h'(2-11) show ?thesis by blast
qed

text \<open>
  When neither the result of the decorator nor the wrapper is the true original or holds its
  dictionary, the round trip and the list of decorators are as the specification describes
  them: the real function of the result is the true original, and the wrapper is in the
  list, once.
\<close>

lemma round_trip_new_wrapper:
  assumes "nd_call nd fn h = (r, h1)" and "wf h1" and "is_function (objs h1 r)"
    and "get_real_function fn h1 = Return f0 h2" and "\<not> same_map h2 r f0"
    and "is_function (objs h1 w)" and "\<not> same_map h2 w f0"
  shows "\<exists>h'. new_decorator nd w fn h = Return r h' \<and> wf h'
            \<and> get_real_function r h' = Return f0 h'
            \<and> get_decorators r h' = Return (add_once w (decorators_of (tracking h2 f0))) h'
            \<and> get_decorators f0 h' = Return (add_once w (decorators_of (tracking h2 f0))) h'
            \<and> is_decorated_with r w h' = Return True h'"
proof -
  have res: "get_native_function fn h1 = Return f0 h2" using assms(4) by (simp add: get_real_function_def)
  from application_effect [OF assms(1,2,3) res assms(5,6,7), of w]
  obtain h' where h': "new_decorator nd w fn h = Return r h'" "wf h'"
      "NATIVE_FUNCTION (tracking h' r) = Some f0"
      "tracking h' f0 = (tracking h2 f0)\<lparr>DECORATORS := Some (add_once w (decorators_of (tracking h2 f0)))\<rparr>"
      "NATIVE_FUNCTION (tracking h2 f0) = None"
      "get_ann (objs h' r) \<noteq> None" "get_ann (objs h' f0) \<noteq> None"
    by (auto simp: new_decorator_as_p)
  have g: "get_native_function r h' = Return f0 h'"
    by (rule get_native_function_tracked) (simp_all add: h')
  have g0: "get_native_function f0 h' = Return f0 h'"
    by (rule get_native_function_self) (simp_all add: h')
  from get_decorators_tracked [OF g h'(7)]
  have d: "get_decorators r h' = Return (add_once w (decorators_of (tracking h2 f0))) h'"
    by (simp add: h'(4) decorators_of_def)
  from get_decorators_tracked [OF g0 h'(7)]
  have d0: "get_decorators f0 h' = Return (add_once w (decorators_of (tracking h2 f0))) h'"
    by (simp add: h'(4) decorators_of_def)
  from d have "is_decorated_with r w h' = Return True h'"
    by (simp add: is_decorated_with_def add_once_member)
  with h' g d d0 show ?thesis by (auto simp: get_real_function_def)
qed

text \<open>
  The result may well hold a dictionary that is not new: \<^verbatim>\<open>functools.wraps\<close> over an
  already decorated function gives the result (object 4) the dictionary of that wrapper
  (object 3), not the one of the true original (object 2), and the application returns.
\<close>

lemma wraps_on_decorated_returns:
  "(case new_decorator wraps_decorator 0 3 stacked_scenario of
      Return r h \<Rightarrow> r = 4 \<and> get_ann (objs h 4) = get_ann (objs h 3) \<and> same_map h 4 3
         \<and> \<not> same_map h 4 2 \<and> \<not> same_map h 0 2
         \<and> get_real_function 4 h = Return 2 h \<and> get_decorators 4 h = Return [1, 0] h
         \<and> NATIVE_FUNCTION (tracking h 0) = Some 2
    | Raise e h \<Rightarrow> False
    | Hang \<Rightarrow> False)"
  by (simp add: run_defs stacked_scenario_def just_decorator_def wraps_decorator_def same_map_def
      follow_stop_the follow_step_the)

section \<open>Parametrized decorators\<close>








section \<open>Queries leave the tracking keys alone\<close>

lemma kept_simps [simp]:
  "kept h0 (Return a h) \<longleftrightarrow> wf h \<and> unchanged h0 h"
  "kept h0 (Raise e h) \<longleftrightarrow> wf h \<and> unchanged h0 h"
  "kept h0 Hang"
  by (simp_all add: kept_def)

lemma unchanged_refl: "unchanged h h"
  by (simp add: unchanged_def)

lemma unchanged_trans:
  assumes "unchanged h h1" "unchanged h1 h2"
  shows "unchanged h h2"
  unfolding unchanged_def
proof (intro conjI allI)
  show "next_obj h2 = next_obj h" using assms by (simp add: unchanged_def)
  show "tracking h2 r = tracking h r" for r using assms by (simp add: unchanged_def)
  fix r
  from assms(1) have 1: "objs h1 r = objs h r
       \<or> (get_ann (objs h r) = None \<and> (\<exists>a. set_ann (objs h r) a = Some (objs h1 r)))"
    by (simp add: unchanged_def)
  from assms(2) have 2: "objs h2 r = objs h1 r
       \<or> (get_ann (objs h1 r) = None \<and> (\<exists>a. set_ann (objs h1 r) a = Some (objs h2 r)))"
    by (simp add: unchanged_def)
  from 1 2 show "objs h2 r = objs h r
       \<or> (get_ann (objs h r) = None \<and> (\<exists>a. set_ann (objs h r) a = Some (objs h2 r)))"
    by (auto dest: set_ann_get_ann)
qed

lemma make_portable_unchanged:
  assumes "wf h" "make_portable t h = Return x h'"
  shows "unchanged h h'"
proof -
  from make_portable_cases [OF assms(2)] consider (same) "h' = h"
    | (new) ob where "get_ann (objs h t) = None" "set_ann (objs h t) (next_dict h) = Some ob"
        "h' = h\<lparr>objs := (objs h)(t := ob), dicts := (dicts h)(next_dict h := no_keys),
                 next_dict := Suc (next_dict h)\<rparr>"
    by auto
  then show ?thesis
  proof cases
    case same
    then show ?thesis by (simp add: unchanged_refl)
  next
    case new
    from new(2) have g: "get_ann ob = Some (next_dict h)" by (rule set_ann_get_ann)
    have lt: "\<And>r a. get_ann (objs h r) = Some a \<Longrightarrow> a \<noteq> next_dict h"
      using assms(1) by (auto simp: wf_def)
    show ?thesis
      unfolding unchanged_def new(3)
      using new(1,2) g lt by (auto simp: tracking_def split: option.splits)
  qed
qed

lemma make_portable_Raise: "make_portable t h = Raise e h' \<Longrightarrow> h' = h"
  by (auto simp: make_portable_def split: option.splits)

lemma kept_make_portable:
  assumes "wf h" "unchanged h0 h"
  shows "kept h0 (make_portable t h)"
proof (cases "make_portable t h")
  case (Return x h')
  with assms show ?thesis
    by (auto intro: make_portable_wf unchanged_trans make_portable_unchanged)
next
  case (Raise e h')
  with assms show ?thesis by (auto dest: make_portable_Raise)
next
  case Hang
  then show ?thesis by simp
qed

lemma kept_getfn: "wf h \<Longrightarrow> unchanged h0 h \<Longrightarrow> kept h0 (getfn t h)"
  by (simp add: getfn_def kept_make_portable)

lemma kept_and_then:
  assumes "kept h0 r" "\<And>a h. wf h \<Longrightarrow> unchanged h0 h \<Longrightarrow> kept h0 (k a h)"
  shows "kept h0 (and_then r k)"
  using assms by (cases r) auto

lemma kept_get_native_function:
  "wf h \<Longrightarrow> unchanged h0 h \<Longrightarrow> kept h0 (get_native_function t h)"
  unfolding get_native_function_def
  by (rule kept_and_then) (auto intro: kept_getfn split: option.splits sum.splits)

lemma kept_get_decorators:
  "wf h \<Longrightarrow> unchanged h0 h \<Longrightarrow> kept h0 (get_decorators t h)"
  unfolding get_decorators_def
  by (rule kept_and_then) (auto intro: kept_get_native_function split: option.splits)

lemma kept_is_decorated_with:
  "wf h \<Longrightarrow> unchanged h0 h \<Longrightarrow> kept h0 (is_decorated_with t d h)"
  unfolding is_decorated_with_def
  by (rule kept_and_then) (auto intro: kept_get_decorators)

lemma kept_native_name:
  "wf h \<Longrightarrow> unchanged h0 h \<Longrightarrow> kept h0 (native_name t h)"
  by (auto simp: native_name_def split: option.splits)

lemma kept_on_return:
  assumes "kept h0 r" "\<And>a h. wf h \<Longrightarrow> unchanged h0 h \<Longrightarrow> kept h0 (snd (k a h))"
  shows "kept h0 (snd (on_return r s k))"
  using assms by (cases r) auto

lemma kept_for_each:
  assumes body: "\<And>x s h. wf h \<Longrightarrow> unchanged h0 h \<Longrightarrow> kept h0 (snd (body x s h))"
  shows "wf h \<Longrightarrow> unchanged h0 h \<Longrightarrow> kept h0 (snd (for_each body xs s h))"
proof (induction xs arbitrary: s h)
  case Nil
  then show ?case by simp
next
  case (Cons x xs)
  obtain s' r where b: "body x s h = (s', r)" by (cases "body x s h")
  from body [OF Cons.prems, of x s] b have k: "kept h0 r" by simp
  show ?case
  proof (cases r)
    case (Return u h')
    with k Cons.IH [of h' s'] b show ?thesis by simp
  next
    case (Raise e h')
    with k b show ?thesis by simp
  next
    case Hang
    with b show ?thesis by simp
  qed
qed

lemma kept_decorated_methods_body:
  "wf h \<Longrightarrow> unchanged h0 h \<Longrightarrow> kept h0 (snd (decorated_methods_body deco cdict n ys h))"
  unfolding decorated_methods_body_def
  by (auto split: option.splits intro!: kept_on_return kept_get_decorators)

lemma kept_decorated_methods:
  "wf h \<Longrightarrow> kept h (snd (decorated_methods cls deco h))"
  unfolding decorated_methods_def
  by (auto split: option.splits obj.splits simp: unchanged_refl
      intro!: kept_for_each kept_decorated_methods_body)

lemma kept_emit:
  assumes "keeps h0 consume" "wf h" "unchanged h0 h"
  shows "kept h0 (snd (emit consume e fname s h))"
proof -
  obtain names acc where s: "s = (names, acc)" by (cases s)
  obtain acc' r where c: "consume e acc h = (acc', r)" by (cases "consume e acc h")
  from assms have "kept h0 (snd (consume e acc h))" unfolding keeps_def by blast
  with c have "kept h0 r" by simp
  then show ?thesis by (cases r) (simp_all add: emit_def s c)
qed

lemma kept_visit:
  "keeps h0 consume \<Longrightarrow> wf h \<Longrightarrow> unchanged h0 h \<Longrightarrow> kept h0 (snd (visit consume mk ns fn s h))"
  unfolding visit_def
  by (auto intro!: kept_on_return kept_get_decorators kept_native_name kept_emit)

lemma kept_method_step:
  "keeps h0 consume \<Longrightarrow> wf h \<Longrightarrow> unchanged h0 h \<Longrightarrow> kept h0 (snd (method_step consume cname cdict el s h))"
  unfolding method_step_def
  by (auto split: option.splits intro!: kept_on_return kept_getfn kept_visit)

lemma kept_methods_block:
  "keeps h0 consume \<Longrightarrow> wf h \<Longrightarrow> unchanged h0 h \<Longrightarrow> kept h0 (snd (methods_block consume fn s h))"
  unfolding methods_block_def
  by (auto split: obj.splits intro!: kept_for_each kept_method_step)

lemma kept_functions_block:
  "keeps h0 consume \<Longrightarrow> wf h \<Longrightarrow> unchanged h0 h \<Longrightarrow> kept h0 (snd (functions_block consume m fn s h))"
  unfolding functions_block_def
  apply (rule kept_on_return)
   apply (erule (1) kept_getfn)
  subgoal for a h'
    using kept_visit [of h0 consume h' "\<lambda>fname. fname" "mdict m" a s]
    by (auto split: prod.splits)
  done

lemma kept_module_step:
  assumes "keeps h0 consume" "wf h" "unchanged h0 h"
  shows "kept h0 (snd (module_step consume m em ef el s h))"
proof (cases "map_of (mdict m) el")
  case None
  with assms show ?thesis by (simp add: module_step_def)
next
  case (Some fn)
  define b where "b = (if \<not> ef \<and> is_function_like (objs h fn)
                 then functions_block consume m fn s h
                 else ((fn, s), Return () h))"
  have kb: "kept h0 (snd b)"
    using assms kept_functions_block [OF assms, of m fn s] by (simp add: b_def)
  obtain fn' s' r where b: "b = ((fn', s'), r)" by (cases b) auto
  show ?thesis
  proof (cases r)
    case (Return u h')
    with kb b have "wf h'" "unchanged h0 h'" by simp_all
    from kept_methods_block [OF assms(1) this, of fn' s'] this Return b Some show ?thesis
      by (simp add: module_step_def b_def [symmetric])
  next
    case (Raise e h')
    with kb b Some show ?thesis by (simp add: module_step_def b_def [symmetric])
  next
    case Hang
    with b Some show ?thesis by (simp add: module_step_def b_def [symmetric])
  qed
qed

lemma kept_scan_module:
  "keeps h consume \<Longrightarrow> wf h \<Longrightarrow> kept h (snd (scan_module consume m em ef acc h))"
  unfolding scan_module_def
  by (rule kept_for_each) (auto intro: kept_module_step unchanged_refl)

lemma keeps_collect: "keeps h0 collect"
  by (simp add: keeps_def collect_def)

lemma keeps_decorated_with: "keeps h0 (decorated_with deco)"
  by (auto simp: keeps_def decorated_with_def split: option.splits
      intro!: kept_on_return kept_get_decorators)

text \<open>
  C10. On a heap as Python builds it, each of the six queries, when it stops (by returning,
  by exhausting its scan, or by a raise), leaves every object with the tracking keys it had:
  no key is added, removed or changed, no object is created, and an object differs from
  before at most by an \<^verbatim>\<open>__annotations__\<close> it lacked, which shows no tracking key.
\<close>

theorem queries_keep_tracking:
  assumes "wf h"
  shows "kept h (get_real_function fn h) \<and> kept h (get_decorators fn h)
       \<and> kept h (is_decorated_with fn deco h)
       \<and> kept h (snd (decorated_methods cls deco h))
       \<and> kept h (snd (all_decorated_module_functions m em ef h))
       \<and> kept h (snd (module_functions_decorated_with m deco em ef h))"
proof -
  have "kept h (snd (all_decorated_module_functions m em ef h))"
    using kept_scan_module [OF keeps_collect assms, of m em ef "[]"]
    by (auto simp: all_decorated_module_functions_def split: prod.splits)
  moreover have "kept h (snd (module_functions_decorated_with m deco em ef h))"
    using kept_scan_module [OF keeps_decorated_with assms, of deco m em ef "[]"]
    by (auto simp: module_functions_decorated_with_def split: prod.splits)
  ultimately show ?thesis
    using assms
    by (simp add: get_real_function_def kept_get_native_function kept_get_decorators
        kept_is_decorated_with kept_decorated_methods unchanged_refl)
qed

theorem queries_keep_tracking_witness:
  "wf mixed_scenario
   \<and> kept mixed_scenario (get_real_function 3 mixed_scenario)
   \<and> kept mixed_scenario (get_decorators 3 mixed_scenario)
   \<and> kept mixed_scenario (is_decorated_with 3 0 mixed_scenario)
   \<and> kept mixed_scenario (snd (decorated_methods 4 0 mixed_scenario))
   \<and> kept mixed_scenario (snd (all_decorated_module_functions mixed_module False False mixed_scenario))
   \<and> kept mixed_scenario (snd (module_functions_decorated_with mixed_module 0 False False mixed_scenario))"
  using queries_keep_tracking [OF wf_mixed_scenario, of 3 0 4 mixed_module False False] wf_mixed_scenario
  by simp

section \<open>A resolved name is yielded once\<close>

lemma once_emit:
  assumes "once E s" "fname \<notin> set (fst s)" "E fname e"
  shows "once E (fst (emit collect e fname s h))"
  using assms by (cases s) (auto simp: once_def emit_def collect_def list_all2_appendI)

lemma once_on_return:
  assumes "once E s" "\<And>a h. once E (fst (k a h))"
  shows "once E (fst (on_return r s k))"
  using assms by (cases r) auto

lemma once_visit:
  assumes "once E s" "\<And>fname. E fname (mk fname, map_of ns fname)"
  shows "once E (fst (visit collect mk ns fn s h))"
  unfolding visit_def using assms
  by (auto intro!: once_on_return once_emit)

lemma once_method_step:
  assumes "once E s" "\<And>fname. E fname (cname @ ''.'' @ fname, map_of cdict fname)"
  shows "once E (fst (method_step collect cname cdict el s h))"
  unfolding method_step_def using assms
  by (auto split: option.splits intro!: once_on_return once_visit)

lemma once_for_each:
  assumes "\<And>x s h. once E s \<Longrightarrow> once E (fst (body x s h))"
  shows "once E s \<Longrightarrow> once E (fst (for_each body xs s h))"
proof (induction xs arbitrary: s h)
  case Nil
  then show ?case by simp
next
  case (Cons x xs)
  obtain s' r where b: "body x s h = (s', r)" by (cases "body x s h")
  from assms [OF Cons.prems, of x h] b have s': "once E s'" by simp
  show ?case
  proof (cases r)
    case (Return u h')
    with Cons.IH [OF s', of h'] b show ?thesis by simp
  next
    case (Raise e h')
    with s' b show ?thesis by simp
  next
    case Hang
    with s' b show ?thesis by simp
  qed
qed

lemma unchanged_Class:
  assumes "unchanged h0 h" "objs h c = Class cname cdir cdict a"
  shows "\<exists>a0. objs h0 c = Class cname cdir cdict a0"
proof -
  from assms(1) have "objs h c = objs h0 c \<or> (\<exists>a. set_ann (objs h0 c) a = Some (objs h c))"
    by (auto simp: unchanged_def)
  with assms(2) show ?thesis by (cases "objs h0 c") auto
qed

lemma once_methods_block:
  assumes "once E s" "unchanged h0 h" "\<And>fname e. method_entry h0 fname e \<Longrightarrow> E fname e"
  shows "once E (fst (methods_block collect fn s h))"
proof (cases "objs h fn")
  case (Class cname cdir cdict a)
  from unchanged_Class [OF assms(2) Class] obtain a0 where "objs h0 fn = Class cname cdir cdict a0" ..
  then have "\<And>fname. E fname (cname @ ''.'' @ fname, map_of cdict fname)"
    by (intro assms(3)) (auto simp: method_entry_def)
  with assms(1) Class show ?thesis
    by (auto simp: methods_block_def intro!: once_for_each once_method_step)
qed (use assms(1) in \<open>simp_all add: methods_block_def\<close>)

lemma once_functions_block:
  assumes "once E s" "\<And>fname e. function_entry m fname e \<Longrightarrow> E fname e"
  shows "once E (snd (fst (functions_block collect m fn s h)))"
proof (cases "getfn fn h")
  case (Return fn' h')
  have "once E (fst (visit collect (\<lambda>fname. fname) (mdict m) fn' s h'))"
    using assms by (intro once_visit) (auto simp: function_entry_def)
  with Return show ?thesis by (auto simp: functions_block_def split: prod.splits)
qed (use assms(1) in \<open>simp_all add: functions_block_def\<close>)

lemma once_module_step:
  assumes s: "once E s" and h: "wf h" "unchanged h0 h"
    and f: "ef \<or> (\<forall>fname e. function_entry m fname e \<longrightarrow> E fname e)"
    and c: "em \<or> (\<forall>fname e. method_entry h0 fname e \<longrightarrow> E fname e)"
  shows "once E (fst (module_step collect m em ef el s h))"
proof (cases "map_of (mdict m) el")
  case None
  with s show ?thesis by (simp add: module_step_def)
next
  case (Some fn)
  define b where "b = (if \<not> ef \<and> is_function_like (objs h fn)
                 then functions_block collect m fn s h
                 else ((fn, s), Return () h))"
  have kb: "kept h0 (snd b)"
    using h kept_functions_block [OF keeps_collect h, of m fn s] by (simp add: b_def)
  have ob: "once E (snd (fst b))"
    using s once_functions_block [OF s, where m = m and fn = fn and h = h] f by (auto simp: b_def)
  obtain fn' s' r where b: "b = ((fn', s'), r)" by (cases b) auto
  with ob have s': "once E s'" by simp
  show ?thesis
  proof (cases r)
    case (Return u h')
    with kb b have "unchanged h0 h'" by simp
    from once_methods_block [OF s' this, where fn = fn'] c s' Return b Some show ?thesis
      by (auto simp: module_step_def b_def [symmetric])
  next
    case (Raise e h')
    with s' b Some show ?thesis by (simp add: module_step_def b_def [symmetric])
  next
    case Hang
    with s' b Some show ?thesis by (simp add: module_step_def b_def [symmetric])
  qed
qed

lemma once_scan_aux:
  assumes f: "ef \<or> (\<forall>fname e. function_entry m fname e \<longrightarrow> E fname e)"
    and c: "em \<or> (\<forall>fname e. method_entry h0 fname e \<longrightarrow> E fname e)"
  shows "once E s \<Longrightarrow> wf h \<Longrightarrow> unchanged h0 h \<Longrightarrow>
         once E (fst (for_each (module_step collect m em ef) xs s h))"
proof (induction xs arbitrary: s h)
  case Nil
  then show ?case by simp
next
  case (Cons x xs)
  obtain s' r where b: "module_step collect m em ef x s h = (s', r)"
    by (cases "module_step collect m em ef x s h")
  from once_module_step [OF Cons.prems f c, of x] b
  have s': "once E s'" by auto
  from kept_module_step [OF keeps_collect Cons.prems(2,3), of m em ef x s] b have k: "kept h0 r" by simp
  show ?case
  proof (cases r)
    case (Return u h')
    with k Cons.IH [OF s', of h'] b show ?thesis by simp
  next
    case (Raise e h')
    with s' b show ?thesis by simp
  next
    case Hang
    with s' b show ?thesis by simp
  qed
qed

lemma once_scan_module:
  assumes "wf h"
    and "ef \<or> (\<forall>fname e. function_entry m fname e \<longrightarrow> E fname e)"
    and "em \<or> (\<forall>fname e. method_entry h fname e \<longrightarrow> E fname e)"
  shows "once E (fst (scan_module collect m em ef [] h))"
  unfolding scan_module_def
  by (rule once_scan_aux [OF assms(2,3)]) (simp add: once_def, rule assms(1), rule unchanged_refl)

lemma mixed_scans:
  "scan_module collect mixed_module False False [] mixed_scenario
     = (([''m'', ''g''], [(''C.m'', Some 3), (''g'', Some 6)]), Return () mixed_scenario)"
  "scan_module collect mixed_module False True [] mixed_scenario
     = (([''m''], [(''C.m'', Some 3)]), Return () mixed_scenario)"
  "scan_module collect mixed_module True False [] mixed_scenario
     = (([''g''], [(''g'', Some 6)]), Return () mixed_scenario)"
  by (simp_all add: run_defs scan_defs just_decorator_def static_scenario_def mixed_scenario_def
      mixed_module_def follow_stop_the follow_step_the)

text \<open>
  The part of the description of the scan that holds of every module, however the scan
  stops: the names recorded in \<^verbatim>\<open>module_names\<close> are distinct and the entries yielded
  correspond to them one to one, so a resolved name is yielded at most once, under whatever
  aliases it is bound. Each entry is either the bare resolved name with the module's
  binding of it, or \<^verbatim>\<open>ClassName.name\<close> with the binding in the class. With
  \<^verbatim>\<open>exclude_functions\<close> every entry is of the second kind, with \<^verbatim>\<open>exclude_methods\<close> every
  entry is of the first. This says nothing of which names are yielded: one name stands for
  every function and method that resolves to it, as the module of \<^verbatim>\<open>C.run\<close> and
  \<^verbatim>\<open>run\<close> shows.
\<close>

lemma module_scan_once:
  assumes "wf h"
  shows "(case scan_module collect m em ef [] h of
           ((module_names, ys), r) \<Rightarrow>
             all_decorated_module_functions m em ef h = (ys, r)
             \<and> distinct module_names
             \<and> list_all2 (\<lambda>fname e. function_entry m fname e \<or> method_entry h fname e) module_names ys
             \<and> (ef \<longrightarrow> list_all2 (method_entry h) module_names ys)
             \<and> (em \<longrightarrow> list_all2 (function_entry m) module_names ys))"
proof -
  obtain module_names ys r where sc: "scan_module collect m em ef [] h = ((module_names, ys), r)"
    by (cases "scan_module collect m em ef [] h") auto
  have 1: "once (\<lambda>fname e. function_entry m fname e \<or> method_entry h fname e) (module_names, ys)"
    using once_scan_module [OF assms, where ef = ef and m = m and em = em
        and E = "\<lambda>fname e. function_entry m fname e \<or> method_entry h fname e"] sc
    by simp
  have 2: "ef \<Longrightarrow> once (method_entry h) (module_names, ys)"
    using once_scan_module [OF assms, where ef = ef and m = m and em = em and E = "method_entry h"] sc
    by simp
  have 3: "em \<Longrightarrow> once (function_entry m) (module_names, ys)"
    using once_scan_module [OF assms, where ef = ef and m = m and em = em and E = "function_entry m"] sc
    by simp
  from 1 2 3 show ?thesis
    by (simp add: sc all_decorated_module_functions_def once_def)
qed

lemma module_scan_once_at_mixed_module:
  "wf mixed_scenario
   \<and> all_decorated_module_functions mixed_module False False mixed_scenario
       = ([(''C.m'', Some 3), (''g'', Some 6)], Return () mixed_scenario)
   \<and> distinct [''m'', ''g'']
   \<and> list_all2 (\<lambda>fname e. function_entry mixed_module fname e \<or> method_entry mixed_scenario fname e)
        [''m'', ''g''] [(''C.m'', Some 3), (''g'', Some 6)]
   \<and> all_decorated_module_functions mixed_module False True mixed_scenario
       = ([(''C.m'', Some 3)], Return () mixed_scenario)
   \<and> list_all2 (method_entry mixed_scenario) [''m''] [(''C.m'', Some 3)]
   \<and> all_decorated_module_functions mixed_module True False mixed_scenario
       = ([(''g'', Some 6)], Return () mixed_scenario)
   \<and> list_all2 (function_entry mixed_module) [''g''] [(''g'', Some 6)]"
  using module_scan_once [OF wf_mixed_scenario, of mixed_module False False]
    module_scan_once [OF wf_mixed_scenario, of mixed_module False True]
    module_scan_once [OF wf_mixed_scenario, of mixed_module True False]
    wf_mixed_scenario
  by (simp add: mixed_scans)

end
